theory Spec2Isabelle
  imports Main "HOL-Library.AList" "HOL-Library.Multiset"
begin

section \<open>Data model of \<open>device/fingerprint.go\<close>\<close>

text \<open>
  The Go structs become records. Several structs share field names (\<open>Type\<close>,
  \<open>Vendor\<close>, \<open>Model\<close>, \<open>ID\<close>, \<open>Devices\<close>), so every field carries a short
  prefix naming its struct: \<open>cd_\<close> for the configured device, \<open>gd_\<close> for
  \<open>GenericDevice\<close>, \<open>fd_\<close> for \<open>fingerprintedDevice\<close>, \<open>dev_\<close>, \<open>dg_\<close> and \<open>fr_\<close>
  for \<open>device.Device\<close>, \<open>device.DeviceGroup\<close> and \<open>device.FingerprintResponse\<close>.
  Go's \<open>int\<close> is modelled as \<open>int\<close>: the only arithmetic is \<open>deviceIndex++\<close>
  under the guard \<open>deviceIndex < count\<close>, which cannot overflow.
  A pointer that may be \<open>nil\<close> is an \<open>option\<close>.
\<close>

text \<open>
  Modelled from the spec: the declaration of \<open>GenericDevice\<close> is not in
  \<open>fingerprint.go\<close>. Its fields are the three that the code sets, strings as the data
  model gives them.
\<close>

record GenericDevice =
  gd_Type :: string
  gd_Vendor :: string
  gd_Model :: string

text \<open>
  Modelled from the spec: the declaration of the element type of \<open>configuredDevices\<close>
  is not in \<open>fingerprint.go\<close>. Its fields are the four that the code reads;
  \<open>Count\<close> is compared with the \<open>int\<close> loop index, so it is an \<open>int\<close>.
\<close>

record ConfiguredDevice =
  cd_Type :: string
  cd_Vendor :: string
  cd_Model :: string
  cd_Count :: int

record fingerprintedDevice =
  fd_ID :: string
  fd_device :: GenericDevice

record DeviceLocality =
  PciBusID :: string

record Device =
  dev_ID :: string
  dev_Healthy :: bool
  dev_HwLocality :: "DeviceLocality option"

record DeviceGroup =
  dg_Vendor :: string
  dg_Type :: string
  dg_Name :: string
  dg_Devices :: "Device list"

record FingerprintResponse =
  fr_Devices :: "DeviceGroup option list"
  fr_Error :: "string option"

text \<open>
  A Go map is an association list with pairwise different keys, kept in the order of
  first insertion; \<open>m[k] = v\<close> is \<open>AList.update k v m\<close> and \<open>len(m)\<close> is the
  length of the list. The receiver \<open>d\<close> holds the configured devices, the
  identified-devices map (taken to be allocated: only its length and its stores are used)
  and the fingerprint period (a \<open>time.Duration\<close>, an integer).
\<close>

type_synonym ('k, 'v) gomap = "('k \<times> 'v) list"

text \<open>
  Modelled from the spec: the declaration of \<open>GenericDevicePlugin\<close> is not in
  \<open>fingerprint.go\<close>. The record has the fields that the two methods use, apart from
  the logger and the mutex, whose effects are described below.
\<close>

record GenericDevicePlugin =
  configuredDevices :: "ConfiguredDevice list"
  identifiedDevices :: "(string, GenericDevice) gomap"
  fingerprintPeriod :: int

text \<open>
  What the code does to the outside world is recorded as a trace of events, oldest first:
  arming and re-arming the timer, the logger call, a send on the \<open>devices\<close> channel and
  its \<open>close\<close>. The mutex \<open>deviceLock\<close> is taken and released around the whole of
  \<open>writeFingerprintToChannel\<close>; in this sequential model it is never contended and leaves
  no event. A send is taken to be received by the consumer.
\<close>

datatype event =
    TimerNew int
  | TimerReset int
  | LogInfo string string int
  | ChanSend FingerprintResponse
  | ChanClose

section \<open>Formatting: \<open>fmt.Sprintf("%s/%s/%s/%d", ...)\<close>\<close>

definition digit_char :: "nat \<Rightarrow> char" where
  "digit_char d = ''0123456789'' ! (d mod 10)"

function formatNat :: "nat \<Rightarrow> string" where
  "formatNat n = (if n < 10 then [digit_char n] else formatNat (n div 10) @ [digit_char (n mod 10)])"
  by pat_completeness auto
termination
  by (relation "measure (\<lambda>n. n)") auto

declare formatNat.simps [simp del]

definition formatInt :: "int \<Rightarrow> string" where
  "formatInt i = (if i < 0 then CHR ''-'' # formatNat (nat (- i)) else formatNat (nat i))"

definition idPrefix :: "ConfiguredDevice \<Rightarrow> string" where
  "idPrefix c = cd_Type c @ ''/'' @ cd_Vendor c @ ''/'' @ cd_Model c"

definition deviceID :: "ConfiguredDevice \<Rightarrow> int \<Rightarrow> string" where
  "deviceID c deviceIndex = idPrefix c @ ''/'' @ formatInt deviceIndex"

section \<open>\<open>writeFingerprintToChannel\<close>\<close>

text \<open>The struct literal appended in the inner loop (lines 54 to 61).\<close>

definition newFingerprintedDevice :: "ConfiguredDevice \<Rightarrow> int \<Rightarrow> fingerprintedDevice" where
  "newFingerprintedDevice c deviceIndex =
     \<lparr>fd_ID = deviceID c deviceIndex,
      fd_device = \<lparr>gd_Type = cd_Type c, gd_Vendor = cd_Vendor c, gd_Model = cd_Model c\<rparr>\<rparr>"

text \<open>The inner loop \<open>for deviceIndex := 0; deviceIndex < count; deviceIndex++\<close>.\<close>

function deviceIndexLoop ::
  "ConfiguredDevice \<Rightarrow> int \<Rightarrow> int \<Rightarrow> fingerprintedDevice list \<Rightarrow> fingerprintedDevice list" where
  "deviceIndexLoop c cnt deviceIndex discoveredDevices =
     (if deviceIndex < cnt
      then deviceIndexLoop c cnt (deviceIndex + 1)
             (discoveredDevices @ [newFingerprintedDevice c deviceIndex])
      else discoveredDevices)"
  by pat_completeness auto
termination
  by (relation "measure (\<lambda>(c, cnt, deviceIndex, acc). nat (cnt - deviceIndex))") auto

declare deviceIndexLoop.simps [simp del]

text \<open>The count used for one entry: \<open>if count == 0 { count = 1 }\<close>.\<close>

definition effectiveCount :: "ConfiguredDevice \<Rightarrow> int" where
  "effectiveCount c = (let cnt = cd_Count c in if cnt = 0 then 1 else cnt)"

text \<open>The outer loop over \<open>d.configuredDevices\<close> (lines 48 to 63).\<close>

fun configuredDevicesLoop ::
  "ConfiguredDevice list \<Rightarrow> fingerprintedDevice list \<Rightarrow> fingerprintedDevice list" where
  "configuredDevicesLoop [] discoveredDevices = discoveredDevices"
| "configuredDevicesLoop (c # cs) discoveredDevices =
     configuredDevicesLoop cs (deviceIndexLoop c (effectiveCount c) 0 discoveredDevices)"

definition discoverDevices :: "ConfiguredDevice list \<Rightarrow> fingerprintedDevice list" where
  "discoverDevices cs = configuredDevicesLoop cs []"

text \<open>Reading a key that a Go map does not hold gives the zero value, here the nil slice.\<close>

definition bucketOf :: "(string, fingerprintedDevice list) gomap \<Rightarrow> string \<Rightarrow> fingerprintedDevice list" where
  "bucketOf m k = (case map_of m k of None \<Rightarrow> [] | Some v \<Rightarrow> v)"

text \<open>The grouping loop (lines 73 to 77): one bucket per Model, one cache entry per ID.\<close>

fun groupLoop ::
  "fingerprintedDevice list \<Rightarrow>
   (string, fingerprintedDevice list) gomap \<times> (string, GenericDevice) gomap \<Rightarrow>
   (string, fingerprintedDevice list) gomap \<times> (string, GenericDevice) gomap" where
  "groupLoop [] s = s"
| "groupLoop (dv # rest) (deviceListByDeviceName, identified) =
     (let deviceName = gd_Model (fd_device dv)
      in groupLoop rest
           (AList.update deviceName (bucketOf deviceListByDeviceName deviceName @ [dv])
              deviceListByDeviceName,
            AList.update (fd_ID dv) (fd_device dv) identified))"

definition deviceGroupFromFingerprintData ::
  "string \<Rightarrow> fingerprintedDevice list \<Rightarrow> DeviceGroup option" where
  "deviceGroupFromFingerprintData groupName deviceList =
     (case deviceList of
        [] \<Rightarrow> None
      | first # _ \<Rightarrow>
          Some \<lparr>dg_Vendor = gd_Vendor (fd_device first),
                dg_Type = gd_Type (fd_device first),
                dg_Name = groupName,
                dg_Devices = map (\<lambda>dev. \<lparr>dev_ID = fd_ID dev, dev_Healthy = True,
                                           dev_HwLocality = None\<rparr>) deviceList\<rparr>)"

text \<open>
  \<open>device.NewFingerprint\<close> of the Nomad plugin library stores the groups and leaves the
  error unset. The records \<open>Device\<close>, \<open>DeviceGroup\<close> and \<open>FingerprintResponse\<close>
  above are that library's structs, with the fields that this code sets and the error
  field of the response.
\<close>

definition NewFingerprint :: "DeviceGroup option list \<Rightarrow> FingerprintResponse" where
  "NewFingerprint deviceGroups = \<lparr>fr_Devices = deviceGroups, fr_Error = None\<rparr>"

text \<open>
  Go leaves the order of \<open>range\<close> over a map unspecified. The order chosen by the runtime is
  a parameter \<open>ro\<close> of the model, a function that rearranges the entries of the map;
  \<open>rangeOrder ro\<close> says that it visits every entry exactly once.
\<close>

type_synonym rangeChoice =
  "(string, fingerprintedDevice list) gomap \<Rightarrow> (string, fingerprintedDevice list) gomap"

definition rangeOrder :: "rangeChoice \<Rightarrow> bool" where
  "rangeOrder ro = (\<forall>m. mset (ro m) = mset m)"

definition writeFingerprintToChannel ::
  "rangeChoice \<Rightarrow> GenericDevicePlugin \<Rightarrow> event list \<Rightarrow> GenericDevicePlugin \<times> event list" where
  "writeFingerprintToChannel ro d tr =
     (if length (identifiedDevices d) = 0 then
        (let discoveredDevices = discoverDevices (configuredDevices d);
             tr1 = tr @ [LogInfo ''Found devices'' ''count'' (int (length discoveredDevices))];
             (deviceListByDeviceName, identified) =
                groupLoop discoveredDevices ([], identifiedDevices d);
             deviceGroups = map (\<lambda>(groupName, devices).
                                   deviceGroupFromFingerprintData groupName devices)
                                (ro deviceListByDeviceName)
         in (d\<lparr>identifiedDevices := identified\<rparr>,
             tr1 @ [ChanSend (NewFingerprint deviceGroups)]))
      else (d, tr))"

section \<open>\<open>doFingerprint\<close>\<close>

text \<open>
  The \<open>select\<close> of each iteration takes one of its two cases. Which one is the runtime's
  choice (it depends on the context, on the timer and, when both are ready, on chance), so
  the sequence of cases taken is the input \<open>sched\<close> of the model. When the sequence is
  used up the goroutine is still waiting in \<open>select\<close>: the third component of the result
  says whether the loop has returned.
\<close>

datatype selectCase = CtxDone | TickerC

fun selectLoop ::
  "rangeChoice \<Rightarrow> selectCase list \<Rightarrow> GenericDevicePlugin \<Rightarrow> event list \<Rightarrow>
   GenericDevicePlugin \<times> event list \<times> bool" where
  "selectLoop ro [] d tr = (d, tr, False)"
| "selectLoop ro (CtxDone # sched) d tr = (d, tr, True)"
| "selectLoop ro (TickerC # sched) d tr =
     (let tr1 = tr @ [TimerReset (fingerprintPeriod d)];
          (d', tr2) = writeFingerprintToChannel ro d tr1
      in selectLoop ro sched d' tr2)"

text \<open>\<open>defer close(devices)\<close> runs when the function returns.\<close>

definition doFingerprint ::
  "rangeChoice \<Rightarrow> selectCase list \<Rightarrow> GenericDevicePlugin \<Rightarrow>
   GenericDevicePlugin \<times> event list \<times> bool" where
  "doFingerprint ro sched d =
     (let (d', tr, returned) = selectLoop ro sched d [TimerNew 0]
      in (d', if returned then tr @ [ChanClose] else tr, returned))"

section \<open>Notions used to state the properties\<close>

text \<open>The devices that the inner loop appends for one entry.\<close>

definition expandEntry :: "ConfiguredDevice \<Rightarrow> fingerprintedDevice list" where
  "expandEntry c = map (newFingerprintedDevice c) [0..effectiveCount c - 1]"

text \<open>The response that a discovery pass sends for a list of configured devices.\<close>

definition discoverySnapshot :: "rangeChoice \<Rightarrow> ConfiguredDevice list \<Rightarrow> FingerprintResponse" where
  "discoverySnapshot ro cs =
     NewFingerprint (map (\<lambda>(groupName, devices). deviceGroupFromFingerprintData groupName devices)
                         (ro (fst (groupLoop (discoverDevices cs) ([], [])))))"

text \<open>One iteration of the loop that takes the timer case: re-arm, then detect.\<close>

definition tick :: "rangeChoice \<Rightarrow> GenericDevicePlugin \<times> event list \<Rightarrow> GenericDevicePlugin \<times> event list" where
  "tick ro s = writeFingerprintToChannel ro (fst s) (snd s @ [TimerReset (fingerprintPeriod (fst s))])"

text \<open>The responses sent on the channel, read off a trace.\<close>

fun sentSnapshots :: "event list \<Rightarrow> FingerprintResponse list" where
  "sentSnapshots [] = []"
| "sentSnapshots (ChanSend r # tr) = r # sentSnapshots tr"
| "sentSnapshots (e # tr) = sentSnapshots tr"

text \<open>The number of devices that a response lists, over all its groups.\<close>

definition snapshotSize :: "FingerprintResponse \<Rightarrow> nat" where
  "snapshotSize r = (\<Sum>og\<leftarrow>fr_Devices r. case og of None \<Rightarrow> 0 | Some g \<Rightarrow> length (dg_Devices g))"

text \<open>The timer operations of a trace.\<close>

fun isTimerEvent :: "event \<Rightarrow> bool" where
  "isTimerEvent (TimerNew p) = True"
| "isTimerEvent (TimerReset p) = True"
| "isTimerEvent e = False"

section \<open>Example configurations\<close>

abbreviation gpuCount0 :: ConfiguredDevice where
  "gpuCount0 \<equiv> \<lparr>cd_Type = ''gpu'', cd_Vendor = ''nvidia'', cd_Model = ''a100'', cd_Count = 0\<rparr>"

abbreviation fpgaCount2 :: ConfiguredDevice where
  "fpgaCount2 \<equiv> \<lparr>cd_Type = ''fpga'', cd_Vendor = ''xilinx'', cd_Model = ''u250'', cd_Count = 2\<rparr>"

abbreviation pluginTwoEntries :: GenericDevicePlugin where
  "pluginTwoEntries \<equiv> \<lparr>configuredDevices = [gpuCount0, fpgaCount2], identifiedDevices = [],
                        fingerprintPeriod = 30\<rparr>"

abbreviation gpuCount1 :: ConfiguredDevice where
  "gpuCount1 \<equiv> \<lparr>cd_Type = ''gpu'', cd_Vendor = ''nvidia'', cd_Model = ''a100'', cd_Count = 1\<rparr>"

abbreviation pluginNoEntries :: GenericDevicePlugin where
  "pluginNoEntries \<equiv> \<lparr>configuredDevices = [], identifiedDevices = [], fingerprintPeriod = 30\<rparr>"

abbreviation pluginOneGpu :: GenericDevicePlugin where
  "pluginOneGpu \<equiv> \<lparr>configuredDevices = [gpuCount0], identifiedDevices = [], fingerprintPeriod = 30\<rparr>"

abbreviation pluginOneGpuFound :: GenericDevicePlugin where
  "pluginOneGpuFound \<equiv>
     \<lparr>configuredDevices = [gpuCount0],
      identifiedDevices = [(''gpu/nvidia/a100/0'',
                            \<lparr>gd_Type = ''gpu'', gd_Vendor = ''nvidia'', gd_Model = ''a100''\<rparr>)],
      fingerprintPeriod = 30\<rparr>"

abbreviation sameModel1 :: ConfiguredDevice where
  "sameModel1 \<equiv> \<lparr>cd_Type = ''t1'', cd_Vendor = ''v1'', cd_Model = ''m'', cd_Count = 1\<rparr>"

abbreviation sameModel2 :: ConfiguredDevice where
  "sameModel2 \<equiv> \<lparr>cd_Type = ''t2'', cd_Vendor = ''v2'', cd_Model = ''m'', cd_Count = 1\<rparr>"

abbreviation pluginSameModel :: GenericDevicePlugin where
  "pluginSameModel \<equiv> \<lparr>configuredDevices = [sameModel1, sameModel2], identifiedDevices = [],
                       fingerprintPeriod = 30\<rparr>"

abbreviation groupM :: DeviceGroup where
  "groupM \<equiv> \<lparr>dg_Vendor = ''v1'', dg_Type = ''t1'', dg_Name = ''m'',
              dg_Devices = [\<lparr>dev_ID = ''t1/v1/m/0'', dev_Healthy = True, dev_HwLocality = None\<rparr>,
                            \<lparr>dev_ID = ''t2/v2/m/0'', dev_Healthy = True, dev_HwLocality = None\<rparr>]\<rparr>"

abbreviation snapshotM :: FingerprintResponse where
  "snapshotM \<equiv> \<lparr>fr_Devices = [Some groupM], fr_Error = None\<rparr>"

abbreviation groupU250 :: DeviceGroup where
  "groupU250 \<equiv> \<lparr>dg_Vendor = ''xilinx'', dg_Type = ''fpga'', dg_Name = ''u250'',
                 dg_Devices = [\<lparr>dev_ID = ''fpga/xilinx/u250/0'', dev_Healthy = True, dev_HwLocality = None\<rparr>,
                               \<lparr>dev_ID = ''fpga/xilinx/u250/1'', dev_Healthy = True, dev_HwLocality = None\<rparr>]\<rparr>"

abbreviation groupA100 :: DeviceGroup where
  "groupA100 \<equiv> \<lparr>dg_Vendor = ''nvidia'', dg_Type = ''gpu'', dg_Name = ''a100'',
                 dg_Devices = [\<lparr>dev_ID = ''gpu/nvidia/a100/0'', dev_Healthy = True, dev_HwLocality = None\<rparr>]\<rparr>"

abbreviation snapshotTwoEntries :: FingerprintResponse where
  "snapshotTwoEntries \<equiv> \<lparr>fr_Devices = [Some groupU250, Some groupA100], fr_Error = None\<rparr>"

abbreviation pluginTwoEntriesFound :: GenericDevicePlugin where
  "pluginTwoEntriesFound \<equiv>
     \<lparr>configuredDevices = [gpuCount0, fpgaCount2],
      identifiedDevices =
        [(''gpu/nvidia/a100/0'', \<lparr>gd_Type = ''gpu'', gd_Vendor = ''nvidia'', gd_Model = ''a100''\<rparr>),
         (''fpga/xilinx/u250/0'', \<lparr>gd_Type = ''fpga'', gd_Vendor = ''xilinx'', gd_Model = ''u250''\<rparr>),
         (''fpga/xilinx/u250/1'', \<lparr>gd_Type = ''fpga'', gd_Vendor = ''xilinx'', gd_Model = ''u250''\<rparr>)],
      fingerprintPeriod = 30\<rparr>"






section \<open>Discovery, grouping and the loop: basic facts\<close>

subsection \<open>The discovery loops\<close>

lemma deviceIndexLoop_eq:
  "deviceIndexLoop c n i acc = acc @ map (newFingerprintedDevice c) [i..n - 1]"
proof (induction c n i acc rule: deviceIndexLoop.induct)
  case (1 c n i acc)
  show ?case
  proof (cases "i < n")
    case True
    then have "[i..n - 1] = i # [i + 1..n - 1]" by (simp add: upto_rec1)
    with True 1 show ?thesis by (simp add: deviceIndexLoop.simps [of c n i acc])
  next
    case False
    then show ?thesis by (simp add: deviceIndexLoop.simps [of c n i acc])
  qed
qed

lemma configuredDevicesLoop_eq:
  "configuredDevicesLoop cs acc = acc @ concat (map expandEntry cs)"
  by (induction cs arbitrary: acc) (simp_all add: deviceIndexLoop_eq expandEntry_def)

lemma discoverDevices_eq: "discoverDevices cs = concat (map expandEntry cs)"
  by (simp add: discoverDevices_def configuredDevicesLoop_eq)

lemma length_expandEntry: "length (expandEntry c) = nat (effectiveCount c)"
  by (simp add: expandEntry_def)

lemma effectiveCount_nonneg: "0 \<le> cd_Count c \<Longrightarrow> effectiveCount c = max (cd_Count c) 1"
  by (simp add: effectiveCount_def Let_def)

lemma length_discoverDevices:
  "length (discoverDevices cs) = (\<Sum>c\<leftarrow>cs. nat (effectiveCount c))"
  by (simp add: discoverDevices_eq length_concat comp_def length_expandEntry)

subsection \<open>The grouping loop\<close>

lemma bucketOf_update:
  "bucketOf (AList.update k v m) k' = (if k' = k then v else bucketOf m k')"
  by (simp add: bucketOf_def update_conv')

lemma groupLoop_bucketOf:
  "bucketOf (fst (groupLoop devs (m, idn))) k =
     bucketOf m k @ filter (\<lambda>f. gd_Model (fd_device f) = k) devs"
  by (induction devs arbitrary: m idn) (auto simp: Let_def bucketOf_update)

lemma groupLoop_keys:
  "fst ` set (fst (groupLoop devs (m, idn))) = fst ` set m \<union> (\<lambda>f. gd_Model (fd_device f)) ` set devs"
  by (induction devs arbitrary: m idn) (auto simp: Let_def dom_update)

lemma groupLoop_distinct:
  "distinct (map fst m) \<Longrightarrow> distinct (map fst (fst (groupLoop devs (m, idn))))"
  by (induction devs arbitrary: m idn) (auto simp: Let_def distinct_update)

lemma groupLoop_entry:
  assumes "(k, v) \<in> set (fst (groupLoop devs ([], idn)))"
  shows "v = filter (\<lambda>f. gd_Model (fd_device f) = k) devs" and "v \<noteq> []"
proof -
  let ?m = "fst (groupLoop devs ([], idn))"
  have d: "distinct (map fst ?m)" by (rule groupLoop_distinct) simp
  with assms have "map_of ?m k = Some v" by simp
  then have "bucketOf ?m k = v" by (simp add: bucketOf_def)
  moreover have "bucketOf ?m k = filter (\<lambda>f. gd_Model (fd_device f) = k) devs"
    by (simp add: groupLoop_bucketOf) (simp add: bucketOf_def)
  ultimately show v: "v = filter (\<lambda>f. gd_Model (fd_device f) = k) devs"
    by simp
  from assms have "k \<in> fst ` set ?m" by force
  then have "k \<in> (\<lambda>f. gd_Model (fd_device f)) ` set devs"
    by (simp add: groupLoop_keys)
  then show "v \<noteq> []" unfolding v by (auto simp: filter_empty_conv)
qed

lemma update_total:
  "(\<Sum>p\<leftarrow>AList.update k (bucketOf m k @ [x]) m. length (snd p)) = Suc (\<Sum>p\<leftarrow>m. length (snd p))"
  by (induction m) (auto simp: bucketOf_def)

lemma groupLoop_total:
  "(\<Sum>p\<leftarrow>fst (groupLoop devs (m, idn)). length (snd p)) = (\<Sum>p\<leftarrow>m. length (snd p)) + length devs"
  by (induction devs arbitrary: m idn) (auto simp: Let_def update_total)


subsection \<open>Decimal rendering and the injectivity of IDs\<close>

lemma digit_char_mem: "digit_char d \<in> set ''0123456789''"
  unfolding digit_char_def by (rule nth_mem) simp

lemma digit_char_not_slash: "digit_char d \<noteq> CHR ''/''"
  using digit_char_mem [of d] by auto

lemma digit_char_inj:
  assumes "a < 10" "b < 10" "digit_char a = digit_char b"
  shows "a = b"
proof -
  have "distinct ''0123456789''" by simp
  moreover from assms have "''0123456789'' ! a = ''0123456789'' ! b"
    by (simp add: digit_char_def)
  moreover from assms have "a < length ''0123456789''" "b < length ''0123456789''" by simp_all
  ultimately show ?thesis by (simp only: nth_eq_iff_index_eq)
qed

lemma formatNat_nonempty: "formatNat n \<noteq> []"
  by (subst formatNat.simps) simp

lemma formatNat_no_slash: "CHR ''/'' \<notin> set (formatNat n)"
proof (induction n rule: formatNat.induct)
  case (1 n)
  then show ?case
    by (subst formatNat.simps) (auto simp: digit_char_not_slash [symmetric])
qed

lemma formatNat_inj: "formatNat n = formatNat m \<Longrightarrow> n = m"
proof (induction n arbitrary: m rule: formatNat.induct)
  case (1 n)
  show ?case
  proof (cases "n < 10")
    case n: True
    show ?thesis
    proof (cases "m < 10")
      case True
      with n "1.prems" show ?thesis
        by (simp add: formatNat.simps [of n] formatNat.simps [of m] digit_char_inj)
    next
      case False
      with n "1.prems" formatNat_nonempty [of "m div 10"] show ?thesis
        by (simp add: formatNat.simps [of n] formatNat.simps [of m])
    qed
  next
    case n: False
    show ?thesis
    proof (cases "m < 10")
      case True
      with n "1.prems" formatNat_nonempty [of "n div 10"] show ?thesis
        by (simp add: formatNat.simps [of n] formatNat.simps [of m])
    next
      case False
      with n "1.prems" have e: "formatNat (n div 10) = formatNat (m div 10)"
        and dc: "digit_char (n mod 10) = digit_char (m mod 10)"
        by (simp_all add: formatNat.simps [of n] formatNat.simps [of m])
      from n e have "n div 10 = m div 10" by (rule "1.IH")
      moreover from dc have "n mod 10 = m mod 10" by (rule digit_char_inj [rotated 2]) simp_all
      ultimately show ?thesis by (metis div_mult_mod_eq)
    qed
  qed
qed

lemma formatInt_nonneg: "0 \<le> i \<Longrightarrow> formatInt i = formatNat (nat i)"
  by (simp add: formatInt_def)

lemma split_at_last_sep:
  "sep \<notin> set a \<Longrightarrow> sep \<notin> set b \<Longrightarrow> p @ sep # a = q @ sep # b \<Longrightarrow> p = q \<and> a = b"
proof (induction p arbitrary: q)
  case Nil
  then show ?case by (cases q) auto
next
  case (Cons x p)
  then show ?case by (cases q) auto
qed

lemma deviceID_inj:
  assumes "0 \<le> i" "0 \<le> j" "deviceID c i = deviceID c' j"
  shows "idPrefix c = idPrefix c' \<and> i = j"
proof -
  from assms have "idPrefix c @ CHR ''/'' # formatNat (nat i) = idPrefix c' @ CHR ''/'' # formatNat (nat j)"
    by (simp add: deviceID_def formatInt_nonneg)
  then have "idPrefix c = idPrefix c' \<and> formatNat (nat i) = formatNat (nat j)"
    by (rule split_at_last_sep [OF formatNat_no_slash formatNat_no_slash])
  with assms(1,2) show ?thesis by (auto dest: formatNat_inj)
qed

lemma ids_expandEntry:
  "map fd_ID (expandEntry c) = map (deviceID c) [0..effectiveCount c - 1]"
  by (simp add: expandEntry_def newFingerprintedDevice_def comp_def)

lemma distinct_ids_expandEntry: "distinct (map fd_ID (expandEntry c))"
  unfolding ids_expandEntry
  by (auto simp: distinct_map inj_on_def dest: deviceID_inj)

lemma distinct_ids_discover:
  "distinct (map idPrefix cs) \<Longrightarrow> distinct (map fd_ID (discoverDevices cs))"
proof (induction cs)
  case Nil
  show ?case by (simp add: discoverDevices_eq)
next
  case (Cons c cs)
  have "fd_ID ` set (expandEntry c) \<inter> fd_ID ` set (concat (map expandEntry cs)) = {}"
  proof (rule ccontr)
    assume "\<not> ?thesis"
    then obtain i c' j where "0 \<le> i" "0 \<le> j" "c' \<in> set cs" "deviceID c i = deviceID c' j"
      by (auto simp: expandEntry_def newFingerprintedDevice_def)
    then have "idPrefix c = idPrefix c'" "c' \<in> set cs" by (auto dest: deviceID_inj)
    with Cons.prems show False by auto
  qed
  with Cons show ?case
    by (simp add: discoverDevices_eq distinct_ids_expandEntry)
qed

subsection \<open>One detection step, and the loop as iterated steps\<close>

lemma wftc_hit: "identifiedDevices d \<noteq> [] \<Longrightarrow> writeFingerprintToChannel ro d tr = (d, tr)"
  by (simp add: writeFingerprintToChannel_def)

lemma wftc_miss:
  "identifiedDevices d = [] \<Longrightarrow>
   writeFingerprintToChannel ro d tr =
     (d\<lparr>identifiedDevices := snd (groupLoop (discoverDevices (configuredDevices d)) ([], []))\<rparr>,
      tr @ [LogInfo ''Found devices'' ''count'' (int (length (discoverDevices (configuredDevices d)))),
            ChanSend (discoverySnapshot ro (configuredDevices d))])"
  by (simp add: writeFingerprintToChannel_def discoverySnapshot_def Let_def split: prod.splits)

lemma wftc_events:
  "set (snd (writeFingerprintToChannel ro d tr)) \<subseteq>
     set tr \<union> {LogInfo ''Found devices'' ''count'' (int (length (discoverDevices (configuredDevices d)))),
               ChanSend (discoverySnapshot ro (configuredDevices d))}"
  by (cases "identifiedDevices d = []") (auto simp: wftc_hit wftc_miss)

lemma wftc_config:
  "configuredDevices (fst (writeFingerprintToChannel ro d tr)) = configuredDevices d"
  "fingerprintPeriod (fst (writeFingerprintToChannel ro d tr)) = fingerprintPeriod d"
  by (cases "identifiedDevices d = []"; simp add: wftc_hit wftc_miss)+

lemma tick_config:
  "configuredDevices (fst (tick ro s)) = configuredDevices (fst s)"
  "fingerprintPeriod (fst (tick ro s)) = fingerprintPeriod (fst s)"
  by (simp_all add: tick_def wftc_config)

lemma tick_funpow_config:
  "configuredDevices (fst ((tick ro ^^ n) s)) = configuredDevices (fst s)"
  "fingerprintPeriod (fst ((tick ro ^^ n) s)) = fingerprintPeriod (fst s)"
  by (induction n) (simp_all add: tick_config)

lemma selectLoop_tick:
  "selectLoop ro (TickerC # sched) d tr =
     selectLoop ro sched (fst (tick ro (d, tr))) (snd (tick ro (d, tr)))"
  by (simp add: tick_def split: prod.splits)

lemma selectLoop_ticks:
  "selectLoop ro (replicate n TickerC @ rest) d tr =
     selectLoop ro rest (fst ((tick ro ^^ n) (d, tr))) (snd ((tick ro ^^ n) (d, tr)))"
proof (induction n arbitrary: d tr)
  case 0
  show ?case by simp
next
  case (Suc n)
  show ?case
    by (simp add: selectLoop_tick Suc funpow_swap1 del: selectLoop.simps)
qed

lemma sched_decompose:
  "sched = replicate (length (takeWhile (\<lambda>s. s \<noteq> CtxDone) sched)) TickerC
             @ dropWhile (\<lambda>s. s \<noteq> CtxDone) sched"
proof -
  have "takeWhile (\<lambda>s. s \<noteq> CtxDone) sched
          = replicate (length (takeWhile (\<lambda>s. s \<noteq> CtxDone) sched)) TickerC"
  proof (induction sched)
    case Nil
    show ?case by simp
  next
    case (Cons s sched)
    then show ?case by (cases s) simp_all
  qed
  then show ?thesis by (metis takeWhile_dropWhile_id)
qed

lemma tick_events:
  "set (snd (tick ro s)) \<subseteq>
     set (snd s) \<union> {TimerReset (fingerprintPeriod (fst s)),
                    LogInfo ''Found devices'' ''count'' (int (length (discoverDevices (configuredDevices (fst s))))),
                    ChanSend (discoverySnapshot ro (configuredDevices (fst s)))}"
  unfolding tick_def using wftc_events [of ro "fst s" "snd s @ [TimerReset (fingerprintPeriod (fst s))]"]
  by auto

lemma tick_funpow_events:
  "set (snd ((tick ro ^^ n) s)) \<subseteq>
     set (snd s) \<union> {TimerReset (fingerprintPeriod (fst s)),
                    LogInfo ''Found devices'' ''count'' (int (length (discoverDevices (configuredDevices (fst s))))),
                    ChanSend (discoverySnapshot ro (configuredDevices (fst s)))}"
proof (induction n)
  case 0
  show ?case by auto
next
  case (Suc n)
  from tick_events [of ro "(tick ro ^^ n) s"] Suc show ?case
    by (simp add: tick_funpow_config) blast
qed

lemma tick_timer_events:
  "filter isTimerEvent (snd (tick ro s)) =
     filter isTimerEvent (snd s) @ [TimerReset (fingerprintPeriod (fst s))]"
  by (cases "identifiedDevices (fst s) = []") (simp_all add: tick_def wftc_hit wftc_miss)

lemma tick_funpow_timer_events:
  "filter isTimerEvent (snd ((tick ro ^^ n) s)) =
     filter isTimerEvent (snd s) @ replicate n (TimerReset (fingerprintPeriod (fst s)))"
proof (induction n)
  case 0
  show ?case by simp
next
  case (Suc n)
  show ?case
    by (simp add: tick_timer_events Suc tick_funpow_config replicate_append_same)
qed

lemma doFingerprint_run:
  "doFingerprint ro (replicate n TickerC) d =
     (fst ((tick ro ^^ n) (d, [TimerNew 0])), snd ((tick ro ^^ n) (d, [TimerNew 0])), False)"
  using selectLoop_ticks [where rest = "[]" and ro = ro and n = n and d = d and tr = "[TimerNew 0]"]
  by (simp add: doFingerprint_def)

lemma doFingerprint_cancel:
  "doFingerprint ro (replicate n TickerC @ CtxDone # rest) d =
     (fst ((tick ro ^^ n) (d, [TimerNew 0])), snd ((tick ro ^^ n) (d, [TimerNew 0])) @ [ChanClose], True)"
  by (simp add: doFingerprint_def selectLoop_ticks)

lemma doFingerprint_events:
  "set (fst (snd (doFingerprint ro sched d))) \<subseteq>
     {TimerNew 0, ChanClose, TimerReset (fingerprintPeriod d),
      LogInfo ''Found devices'' ''count'' (int (length (discoverDevices (configuredDevices d)))),
      ChanSend (discoverySnapshot ro (configuredDevices d))}"
proof -
  let ?n = "length (takeWhile (\<lambda>s. s \<noteq> CtxDone) sched)"
  let ?rest = "dropWhile (\<lambda>s. s \<noteq> CtxDone) sched"
  have s: "sched = replicate ?n TickerC @ ?rest" by (rule sched_decompose)
  have t: "set (snd ((tick ro ^^ ?n) (d, [TimerNew 0]))) \<subseteq>
     {TimerNew 0, TimerReset (fingerprintPeriod d),
      LogInfo ''Found devices'' ''count'' (int (length (discoverDevices (configuredDevices d)))),
      ChanSend (discoverySnapshot ro (configuredDevices d))}"
    using tick_funpow_events [where ro = ro and n = ?n and s = "(d, [TimerNew 0])"] by auto
  show ?thesis
  proof (cases ?rest)
    case Nil
    with s have "sched = replicate ?n TickerC" by simp
    then have "doFingerprint ro sched d = doFingerprint ro (replicate ?n TickerC) d" by simp
    with t show ?thesis by (auto simp: doFingerprint_run)
  next
    case (Cons x xs)
    then have "x = CtxDone" using hd_dropWhile [of "\<lambda>s. s \<noteq> CtxDone" sched] by auto
    with s Cons have "doFingerprint ro sched d = doFingerprint ro (replicate ?n TickerC @ CtxDone # xs) d"
      by simp
    with t show ?thesis by (auto simp: doFingerprint_cancel)
  qed
qed

subsection \<open>How many devices a response lists\<close>

lemma groupSize_deviceGroup:
  "(case deviceGroupFromFingerprintData n ds of None \<Rightarrow> 0 | Some g \<Rightarrow> length (dg_Devices g)) = length ds"
  by (cases ds) (simp_all add: deviceGroupFromFingerprintData_def)

lemma sum_list_rearranged:
  fixes f :: "'a \<Rightarrow> nat"
  shows "mset xs = mset ys \<Longrightarrow> sum_list (map f xs) = sum_list (map f ys)"
  by (metis mset_map sum_mset_sum_list)

lemma snapshotSize_discovery:
  assumes "rangeOrder ro"
  shows "snapshotSize (discoverySnapshot ro cs) = length (discoverDevices cs)"
proof -
  let ?B = "fst (groupLoop (discoverDevices cs) ([], []))"
  have "snapshotSize (discoverySnapshot ro cs) = (\<Sum>p\<leftarrow>ro ?B. length (snd p))"
    by (simp add: snapshotSize_def discoverySnapshot_def NewFingerprint_def comp_def
        case_prod_unfold groupSize_deviceGroup)
  also from assms have "\<dots> = (\<Sum>p\<leftarrow>?B. length (snd p))"
    by (intro sum_list_rearranged) (simp add: rangeOrder_def)
  also have "\<dots> = length (discoverDevices cs)"
    by (simp add: groupLoop_total)
  finally show ?thesis .
qed

lemma sum_effectiveCount:
  "\<forall>c\<in>set cs. 0 \<le> cd_Count c \<Longrightarrow>
   (\<Sum>c\<leftarrow>cs. nat (effectiveCount c)) = (\<Sum>c\<leftarrow>cs. nat (max (cd_Count c) 1))"
  by (induction cs) (simp_all add: effectiveCount_nonneg)

lemma rangeOrder_rev: "rangeOrder rev"
  by (simp add: rangeOrder_def)

subsection \<open>Evaluation, the empty configuration, and the groups of a response\<close>

lemmas eval_discover =
  discoverDevices_eq expandEntry_def effectiveCount_def newFingerprintedDevice_def
  deviceID_def idPrefix_def formatInt_def formatNat.simps digit_char_def upto_rec1

lemma ids_discover:
  "map fd_ID (discoverDevices cs) = concat (map (\<lambda>c. map (deviceID c) [0..effectiveCount c - 1]) cs)"
  by (simp add: discoverDevices_eq map_concat comp_def ids_expandEntry)

lemmas eval_step =
  writeFingerprintToChannel_def discoverDevices_eq expandEntry_def effectiveCount_def
  newFingerprintedDevice_def deviceID_def idPrefix_def formatInt_def formatNat.simps
  digit_char_def upto_rec1 bucketOf_def deviceGroupFromFingerprintData_def NewFingerprint_def
  doFingerprint_def Let_def

lemma groupLoop_cache_nonempty:
  "devs \<noteq> [] \<or> idn \<noteq> [] \<Longrightarrow> snd (groupLoop devs (m, idn)) \<noteq> []"
  by (induction devs arbitrary: m idn) (auto simp: Let_def)

lemma rangeOrder_empty: "rangeOrder ro \<Longrightarrow> ro [] = []"
  using mset_zero_iff by (fastforce simp: rangeOrder_def)

lemma tick_no_entries:
  assumes "rangeOrder ro" "configuredDevices d = []" "identifiedDevices d = []"
  shows "tick ro (d, tr) =
           (d, tr @ [TimerReset (fingerprintPeriod d), LogInfo ''Found devices'' ''count'' 0,
                     ChanSend \<lparr>fr_Devices = [], fr_Error = None\<rparr>])"
  using assms
  by (simp add: tick_def wftc_miss discoverDevices_eq discoverySnapshot_def NewFingerprint_def
      rangeOrder_empty)

lemma concat_replicate_snoc: "concat (replicate n xs) @ xs = concat (replicate (Suc n) xs)"
  by (induction n) simp_all

lemma tick_funpow_no_entries:
  assumes "rangeOrder ro" "configuredDevices d = []" "identifiedDevices d = []"
  shows "(tick ro ^^ n) (d, tr) =
           (d, tr @ concat (replicate n
                 [TimerReset (fingerprintPeriod d), LogInfo ''Found devices'' ''count'' 0,
                  ChanSend \<lparr>fr_Devices = [], fr_Error = None\<rparr>]))"
proof (induction n)
  case 0
  show ?case by simp
next
  case (Suc n)
  have "concat (replicate n [TimerReset (fingerprintPeriod d), LogInfo ''Found devices'' ''count'' 0,
                  ChanSend \<lparr>fr_Devices = [], fr_Error = None\<rparr>])
        @ [TimerReset (fingerprintPeriod d), LogInfo ''Found devices'' ''count'' 0,
                  ChanSend \<lparr>fr_Devices = [], fr_Error = None\<rparr>]
      = concat (replicate (Suc n) [TimerReset (fingerprintPeriod d), LogInfo ''Found devices'' ''count'' 0,
                  ChanSend \<lparr>fr_Devices = [], fr_Error = None\<rparr>])"
    by (rule concat_replicate_snoc)
  with Suc show ?case
    by (simp add: tick_no_entries [OF assms])
qed

lemma sentSnapshots_append:
  "sentSnapshots (xs @ ys) = sentSnapshots xs @ sentSnapshots ys"
  by (induction xs rule: sentSnapshots.induct) simp_all

lemma sentSnapshots_rounds:
  "sentSnapshots (concat (replicate n [TimerReset p, LogInfo a b c, ChanSend r])) = replicate n r"
  by (induction n) simp_all

lemma rangeOrder_set: "rangeOrder ro \<Longrightarrow> set (ro m) = set m"
  by (metis mset_eq_setD rangeOrder_def)

lemma rangeOrder_single:
  assumes "rangeOrder ro"
  shows "ro [x] = [x]"
proof -
  from assms have "mset (ro [x]) = {#x#}" by (simp add: rangeOrder_def)
  then show ?thesis by simp
qed

lemma snapshot_group:
  assumes "rangeOrder ro" and "og \<in> set (fr_Devices (discoverySnapshot ro cs))"
  shows "\<exists>k first members.
           filter (\<lambda>f. gd_Model (fd_device f) = k) (discoverDevices cs) = first # members
           \<and> og = deviceGroupFromFingerprintData k (first # members)"
proof -
  let ?B = "fst (groupLoop (discoverDevices cs) ([], []))"
  from assms obtain k v where kv: "(k, v) \<in> set ?B" and og: "og = deviceGroupFromFingerprintData k v"
    by (auto simp: discoverySnapshot_def NewFingerprint_def rangeOrder_set)
  from kv have v: "v = filter (\<lambda>f. gd_Model (fd_device f) = k) (discoverDevices cs)" and "v \<noteq> []"
    by (rule groupLoop_entry)+
  then obtain first members where vc: "v = first # members"
    by (auto simp: neq_Nil_conv)
  have "filter (\<lambda>f. gd_Model (fd_device f) = k) (discoverDevices cs) = first # members"
    using v [symmetric] vc by (rule trans)
  moreover from og vc have "og = deviceGroupFromFingerprintData k (first # members)"
    by simp
  ultimately show ?thesis by blast
qed

lemma wftc_sent:
  "ChanSend r \<in> set (snd (writeFingerprintToChannel ro d [])) \<Longrightarrow>
   r = discoverySnapshot ro (configuredDevices d)"
  using wftc_events [of ro d "[]"] by auto

lemma doFingerprint_sent:
  "ChanSend r \<in> set (fst (snd (doFingerprint ro sched d))) \<Longrightarrow>
   r = discoverySnapshot ro (configuredDevices d)"
  using doFingerprint_events [of ro sched d] by auto

lemma model_expandEntry: "f \<in> set (expandEntry c) \<Longrightarrow> gd_Model (fd_device f) = cd_Model c"
  by (auto simp: expandEntry_def newFingerprintedDevice_def)

lemma filter_model_expandEntry:
  "filter (\<lambda>f. gd_Model (fd_device f) = k) (expandEntry c) = (if cd_Model c = k then expandEntry c else [])"
  by (auto simp: filter_empty_conv model_expandEntry intro: filter_True)

lemma filter_model_discover:
  "filter (\<lambda>f. gd_Model (fd_device f) = k) (discoverDevices cs)
     = concat (map expandEntry (filter (\<lambda>c. cd_Model c = k) cs))"
  by (induction cs) (simp_all add: discoverDevices_eq filter_model_expandEntry)

lemma expandEntry_cases:
  "expandEntry c = (if 0 \<le> cd_Count c
                    then newFingerprintedDevice c 0 # map (newFingerprintedDevice c) [1..effectiveCount c - 1]
                    else [])"
  by (auto simp: expandEntry_def effectiveCount_def Let_def upto_rec1)

lemma first_of_model:
  "concat (map expandEntry (filter (\<lambda>c. cd_Model c = k) cs)) = f # fs \<Longrightarrow>
   \<exists>c. find (\<lambda>c. cd_Model c = k \<and> 0 \<le> cd_Count c) cs = Some c
       \<and> fd_device f = \<lparr>gd_Type = cd_Type c, gd_Vendor = cd_Vendor c, gd_Model = cd_Model c\<rparr>"
proof (induction cs)
  case Nil
  then show ?case by simp
next
  case (Cons c cs)
  show ?case
  proof (cases "cd_Model c = k \<and> 0 \<le> cd_Count c")
    case True
    with Cons.prems have "f = newFingerprintedDevice c 0"
      by (simp add: expandEntry_cases [of c])
    with True show ?thesis by (simp add: newFingerprintedDevice_def)
  next
    case False
    with Cons.prems have "concat (map expandEntry (filter (\<lambda>c. cd_Model c = k) cs)) = f # fs"
      by (auto simp: expandEntry_cases [of c] split: if_splits)
    from Cons.IH [OF this] False show ?thesis by auto
  qed
qed


lemma groupLoop_cache_keys:
  "fst ` set (snd (groupLoop devs (m, idn))) = fst ` set idn \<union> fd_ID ` set devs"
  by (induction devs arbitrary: m idn) (auto simp: Let_def dom_update)


lemma deviceGroup_of_bucket:
  "deviceGroupFromFingerprintData k (first # members) = Some g \<Longrightarrow>
   dg_Name g = k \<and> dg_Vendor g = gd_Vendor (fd_device first) \<and> dg_Type g = gd_Type (fd_device first)
   \<and> map dev_ID (dg_Devices g) = map fd_ID (first # members)"
  by (auto simp: deviceGroupFromFingerprintData_def)

lemma deviceGroup_is_Some:
  "\<exists>g. deviceGroupFromFingerprintData k (first # members) = Some g"
  by (simp add: deviceGroupFromFingerprintData_def)

lemma snapshot_same_model:
  assumes "rangeOrder ro"
  shows "discoverySnapshot ro [sameModel1, sameModel2] = snapshotM"
  by (simp add: discoverySnapshot_def eval_step rangeOrder_single [OF assms])

lemma step_two_entries:
  "writeFingerprintToChannel rev pluginTwoEntries tr
     = (pluginTwoEntriesFound,
        tr @ [LogInfo ''Found devices'' ''count'' 3, ChanSend snapshotTwoEntries])"
  by (simp add: eval_step)

lemma run_two_entries:
  "doFingerprint rev [TickerC, TickerC, CtxDone] pluginTwoEntries
     = (pluginTwoEntriesFound,
        [TimerNew 0, TimerReset 30, LogInfo ''Found devices'' ''count'' 3,
         ChanSend snapshotTwoEntries, TimerReset 30, ChanClose],
        True)"
  by (simp add: doFingerprint_def step_two_entries wftc_hit)






subsection \<open>The shape of the trace\<close>

lemma wftc_extends:
  "\<exists>ext. snd (writeFingerprintToChannel ro d tr) = tr @ ext
         \<and> set ext \<subseteq> {LogInfo ''Found devices'' ''count'' (int (length (discoverDevices (configuredDevices d)))),
                        ChanSend (discoverySnapshot ro (configuredDevices d))}"
  by (cases "identifiedDevices d = []") (simp_all add: wftc_hit wftc_miss)

lemma tick_extends:
  "\<exists>ext. snd (tick ro s) = snd s @ ext
         \<and> set ext \<subseteq> {TimerReset (fingerprintPeriod (fst s)),
                        LogInfo ''Found devices'' ''count'' (int (length (discoverDevices (configuredDevices (fst s))))),
                        ChanSend (discoverySnapshot ro (configuredDevices (fst s)))}"
proof -
  from wftc_extends [of ro "fst s" "snd s @ [TimerReset (fingerprintPeriod (fst s))]"]
  obtain ext where "snd (tick ro s) = snd s @ TimerReset (fingerprintPeriod (fst s)) # ext"
    and "set ext \<subseteq> {LogInfo ''Found devices'' ''count'' (int (length (discoverDevices (configuredDevices (fst s))))),
                        ChanSend (discoverySnapshot ro (configuredDevices (fst s)))}"
    by (auto simp: tick_def)
  then show ?thesis by (intro exI [of _ "TimerReset (fingerprintPeriod (fst s)) # ext"]) auto
qed

lemma tick_funpow_extends:
  "\<exists>ext. snd ((tick ro ^^ n) s) = snd s @ ext
         \<and> set ext \<subseteq> {TimerReset (fingerprintPeriod (fst s)),
                        LogInfo ''Found devices'' ''count'' (int (length (discoverDevices (configuredDevices (fst s))))),
                        ChanSend (discoverySnapshot ro (configuredDevices (fst s)))}"
proof (induction n)
  case 0
  show ?case by simp
next
  case (Suc n)
  then obtain ext where 1: "snd ((tick ro ^^ n) s) = snd s @ ext"
    and 2: "set ext \<subseteq> {TimerReset (fingerprintPeriod (fst s)),
                        LogInfo ''Found devices'' ''count'' (int (length (discoverDevices (configuredDevices (fst s))))),
                        ChanSend (discoverySnapshot ro (configuredDevices (fst s)))}"
    by blast
  from tick_extends [of ro "(tick ro ^^ n) s"]
  obtain ext' where 3: "snd ((tick ro ^^ Suc n) s) = snd ((tick ro ^^ n) s) @ ext'"
    and 4: "set ext' \<subseteq> {TimerReset (fingerprintPeriod (fst s)),
                        LogInfo ''Found devices'' ''count'' (int (length (discoverDevices (configuredDevices (fst s))))),
                        ChanSend (discoverySnapshot ro (configuredDevices (fst s)))}"
    by (auto simp: tick_funpow_config)
  from 1 3 have "snd ((tick ro ^^ Suc n) s) = snd s @ (ext @ ext')" by simp
  moreover from 2 4 have "set (ext @ ext') \<subseteq> {TimerReset (fingerprintPeriod (fst s)),
                        LogInfo ''Found devices'' ''count'' (int (length (discoverDevices (configuredDevices (fst s))))),
                        ChanSend (discoverySnapshot ro (configuredDevices (fst s)))}"
    by simp
  ultimately show ?case by blast
qed

lemma sched_cancelled:
  "CtxDone \<in> set sched \<Longrightarrow>
   \<exists>rest. sched = replicate (length (takeWhile (\<lambda>s. s \<noteq> CtxDone) sched)) TickerC @ CtxDone # rest"
proof (induction sched)
  case Nil
  then show ?case by simp
next
  case (Cons s sched)
  then show ?case by (cases s) auto
qed

lemma sched_not_cancelled:
  "CtxDone \<notin> set sched \<Longrightarrow> sched = replicate (length sched) TickerC"
proof (induction sched)
  case Nil
  then show ?case by simp
next
  case (Cons s sched)
  then show ?case by (cases s) auto
qed

lemma snapshot_no_error: "fr_Error (discoverySnapshot ro cs) = None"
  by (simp add: discoverySnapshot_def NewFingerprint_def)

lemma run_two_entries_ignored_tail:
  "doFingerprint rev [TickerC, TickerC, CtxDone, TickerC] pluginTwoEntries
     = (pluginTwoEntriesFound,
        [TimerNew 0, TimerReset 30, LogInfo ''Found devices'' ''count'' 3,
         ChanSend snapshotTwoEntries, TimerReset 30, ChanClose],
        True)"
  by (simp add: doFingerprint_def step_two_entries wftc_hit)

lemma run_two_ticks:
  "doFingerprint rev [TickerC, TickerC] pluginTwoEntries
     = (pluginTwoEntriesFound,
        [TimerNew 0, TimerReset 30, LogInfo ''Found devices'' ''count'' 3,
         ChanSend snapshotTwoEntries, TimerReset 30],
        False)"
  by (simp add: doFingerprint_def step_two_entries wftc_hit)

lemma run_one_tick:
  "doFingerprint rev [TickerC] pluginTwoEntries
     = (pluginTwoEntriesFound,
        [TimerNew 0, TimerReset 30, LogInfo ''Found devices'' ''count'' 3,
         ChanSend snapshotTwoEntries],
        False)"
  by (simp add: doFingerprint_def step_two_entries)

lemma doFingerprint_trace:
  "\<exists>ext. fst (snd (doFingerprint ro sched d)) = TimerNew 0 # ext \<and> (\<forall>p. TimerNew p \<notin> set ext)"
proof -
  let ?n = "length (takeWhile (\<lambda>s. s \<noteq> CtxDone) sched)"
  from tick_funpow_extends [where ro = ro and n = ?n and s = "(d, [TimerNew 0])"]
  obtain ext where e: "snd ((tick ro ^^ ?n) (d, [TimerNew 0])) = TimerNew 0 # ext"
    and n: "\<forall>p. TimerNew p \<notin> set ext"
    by auto
  show ?thesis
  proof (cases "CtxDone \<in> set sched")
    case True
    from sched_cancelled [OF True] obtain rest
      where "sched = replicate ?n TickerC @ CtxDone # rest" by blast
    then have "doFingerprint ro sched d = doFingerprint ro (replicate ?n TickerC @ CtxDone # rest) d"
      by simp
    then have "fst (snd (doFingerprint ro sched d)) = TimerNew 0 # (ext @ [ChanClose])"
      by (simp add: doFingerprint_cancel e)
    moreover from n have "\<forall>p. TimerNew p \<notin> set (ext @ [ChanClose])" by simp
    ultimately show ?thesis by blast
  next
    case False
    then have t: "takeWhile (\<lambda>s. s \<noteq> CtxDone) sched = sched" by (auto simp: takeWhile_eq_all_conv)
    from sched_not_cancelled [OF False]
    have "doFingerprint ro sched d = doFingerprint ro (replicate (length sched) TickerC) d"
      by simp
    then have "fst (snd (doFingerprint ro sched d)) = TimerNew 0 # ext"
      using e by (simp add: doFingerprint_run t)
    with n show ?thesis by blast
  qed
qed

lemma groupLoop_cache_distinct:
  "distinct (map fst idn) \<Longrightarrow> distinct (map fst (snd (groupLoop devs (m, idn))))"
  by (induction devs arbitrary: m idn) (auto simp: Let_def distinct_update)

lemma cache_size:
  "length (snd (groupLoop devs ([], []))) = card (fd_ID ` set devs)"
proof -
  let ?c = "snd (groupLoop devs ([], []))"
  have "distinct (map fst ?c)" by (rule groupLoop_cache_distinct) simp
  then have "length (map fst ?c) = card (set (map fst ?c))" by (simp only: distinct_card)
  then show ?thesis by (simp add: groupLoop_cache_keys)
qed

lemma cache_size_le: "length (snd (groupLoop devs ([], []))) \<le> length devs"
  unfolding cache_size using card_image_le [of "set devs" fd_ID] card_length [of devs] by simp

lemma cache_size_distinct:
  "distinct (map fd_ID devs) \<Longrightarrow> length (snd (groupLoop devs ([], []))) = length devs"
  unfolding cache_size using distinct_card [of "map fd_ID devs"] by simp

section \<open>Properties of the detector\<close>

text \<open>
  C1. When no entry has a negative Count, a discovery pass (the detection step run on an
  empty identified-devices cache) generates as many devices as the sum over the entries
  of \<open>max(Count, 1)\<close>: this is the length of the discovered list, the count that is
  logged, and the number of devices listed by the response that is sent. An entry with
  Count 0 contributes exactly one device. The cache, keyed by ID, then holds at most that
  many entries, and exactly that many when no two entries render the same
  \<open>Type/Vendor/Model\<close> prefix.
\<close>

theorem discovery_generates_sum_of_counts:
  assumes "identifiedDevices d = []"
    and "\<forall>c\<in>set (configuredDevices d). 0 \<le> cd_Count c"
    and "rangeOrder ro"
  shows "length (discoverDevices (configuredDevices d))
           = (\<Sum>c\<leftarrow>configuredDevices d. nat (max (cd_Count c) 1))
       \<and> (\<exists>r. snd (writeFingerprintToChannel ro d tr)
                 = tr @ [LogInfo ''Found devices'' ''count''
                           (int (\<Sum>c\<leftarrow>configuredDevices d. nat (max (cd_Count c) 1))),
                         ChanSend r]
              \<and> snapshotSize r = (\<Sum>c\<leftarrow>configuredDevices d. nat (max (cd_Count c) 1)))
       \<and> (\<forall>c\<in>set (configuredDevices d). cd_Count c = 0 \<longrightarrow>
             length (deviceIndexLoop c (effectiveCount c) 0 []) = 1)
       \<and> length (identifiedDevices (fst (writeFingerprintToChannel ro d tr)))
           \<le> (\<Sum>c\<leftarrow>configuredDevices d. nat (max (cd_Count c) 1))
       \<and> (distinct (map idPrefix (configuredDevices d)) \<longrightarrow>
             length (identifiedDevices (fst (writeFingerprintToChannel ro d tr)))
               = (\<Sum>c\<leftarrow>configuredDevices d. nat (max (cd_Count c) 1)))"
proof -
  have len: "length (discoverDevices (configuredDevices d))
           = (\<Sum>c\<leftarrow>configuredDevices d. nat (max (cd_Count c) 1))"
    using assms(2) by (simp add: length_discoverDevices sum_effectiveCount)
  have "snd (writeFingerprintToChannel ro d tr)
          = tr @ [LogInfo ''Found devices'' ''count''
                    (int (\<Sum>c\<leftarrow>configuredDevices d. nat (max (cd_Count c) 1))),
                  ChanSend (discoverySnapshot ro (configuredDevices d))]"
    using assms(1) len by (simp add: wftc_miss)
  moreover have "snapshotSize (discoverySnapshot ro (configuredDevices d))
          = (\<Sum>c\<leftarrow>configuredDevices d. nat (max (cd_Count c) 1))"
    using assms(3) len by (simp add: snapshotSize_discovery)
  moreover have "\<forall>c\<in>set (configuredDevices d). cd_Count c = 0 \<longrightarrow>
             length (deviceIndexLoop c (effectiveCount c) 0 []) = 1"
    by (simp add: deviceIndexLoop_eq effectiveCount_def)
  moreover have "length (identifiedDevices (fst (writeFingerprintToChannel ro d tr)))
           \<le> (\<Sum>c\<leftarrow>configuredDevices d. nat (max (cd_Count c) 1))"
    using assms(1) cache_size_le [of "discoverDevices (configuredDevices d)"]
    by (simp add: wftc_miss len)
  moreover have "distinct (map idPrefix (configuredDevices d)) \<longrightarrow>
             length (identifiedDevices (fst (writeFingerprintToChannel ro d tr)))
               = (\<Sum>c\<leftarrow>configuredDevices d. nat (max (cd_Count c) 1))"
    using assms(1) by (simp add: wftc_miss cache_size_distinct distinct_ids_discover len)
  ultimately show ?thesis using len by blast
qed

theorem discovery_generates_sum_of_counts_witness:
  "identifiedDevices pluginTwoEntries = []
   \<and> 0 \<le> cd_Count gpuCount0 \<and> 0 \<le> cd_Count fpgaCount2
   \<and> rangeOrder rev
   \<and> distinct (map idPrefix (configuredDevices pluginTwoEntries))
   \<and> length (discoverDevices [gpuCount0, fpgaCount2]) = 3
   \<and> (\<exists>r. snd (writeFingerprintToChannel rev pluginTwoEntries [])
             = [LogInfo ''Found devices'' ''count'' 3, ChanSend r]
          \<and> snapshotSize r = 3)
   \<and> length (deviceIndexLoop gpuCount0 (effectiveCount gpuCount0) 0 []) = 1
   \<and> length (identifiedDevices (fst (writeFingerprintToChannel rev pluginTwoEntries []))) = 3"
proof -
  have h1: "identifiedDevices pluginTwoEntries = []" by simp
  have h2: "\<forall>c\<in>set (configuredDevices pluginTwoEntries). 0 \<le> cd_Count c" by simp
  have h3: "rangeOrder rev" by (simp add: rangeOrder_def)
  have h4: "distinct (map idPrefix (configuredDevices pluginTwoEntries))"
    by (simp add: idPrefix_def)
  from discovery_generates_sum_of_counts [OF h1 h2 h3, of "[]"] h1 h2 h3 h4
  show ?thesis by (simp add: numeral_3_eq_3)
qed

text \<open>
  C2. Every identified device of a discovery pass has the ID
  \<open>Type/Vendor/Model/index\<close> of its template, the index running over
  \<open>[0, max(Count, 1))\<close> in each entry. The IDs of one pass need not be pairwise
  different: two entries with the same Type, Vendor and Model give the same IDs.
\<close>

theorem duplicate_entries_share_ids:
  "0 \<le> cd_Count gpuCount1
   \<and> map fd_ID (discoverDevices [gpuCount1, gpuCount1]) = [''gpu/nvidia/a100/0'', ''gpu/nvidia/a100/0'']
   \<and> \<not> distinct (map fd_ID (discoverDevices [gpuCount1, gpuCount1]))"
  by (simp add: eval_discover)

text \<open>
  C2, as the code has it. When no entry has a negative Count, the IDs of a discovery pass
  are, entry by entry and index by index, the strings \<open>Type/Vendor/Model/index\<close> with
  the index in \<open>[0, max(Count, 1))\<close>; the IDs of one entry are pairwise different, and
  the IDs of the whole pass are pairwise different when no two entries render the same
  \<open>Type/Vendor/Model\<close> prefix.
\<close>

theorem ids_follow_template:
  assumes "\<forall>c\<in>set cs. 0 \<le> cd_Count c"
  shows "map fd_ID (discoverDevices cs)
           = concat (map (\<lambda>c. map (\<lambda>i. cd_Type c @ ''/'' @ cd_Vendor c @ ''/'' @ cd_Model c
                                          @ ''/'' @ formatInt i)
                                [0..max (cd_Count c) 1 - 1]) cs)
       \<and> (\<forall>c\<in>set cs. distinct (map (deviceID c) [0..max (cd_Count c) 1 - 1]))
       \<and> (distinct (map idPrefix cs) \<longrightarrow> distinct (map fd_ID (discoverDevices cs)))"
proof -
  have "map (\<lambda>c. map (deviceID c) [0..effectiveCount c - 1]) cs
      = map (\<lambda>c. map (\<lambda>i. cd_Type c @ ''/'' @ cd_Vendor c @ ''/'' @ cd_Model c
                                          @ ''/'' @ formatInt i)
                                [0..max (cd_Count c) 1 - 1]) cs"
    using assms by (intro map_cong refl) (simp_all add: effectiveCount_nonneg deviceID_def idPrefix_def)
  then have "map fd_ID (discoverDevices cs)
           = concat (map (\<lambda>c. map (\<lambda>i. cd_Type c @ ''/'' @ cd_Vendor c @ ''/'' @ cd_Model c
                                          @ ''/'' @ formatInt i)
                                [0..max (cd_Count c) 1 - 1]) cs)"
    by (simp only: ids_discover)
  moreover have "\<forall>c\<in>set cs. distinct (map (deviceID c) [0..max (cd_Count c) 1 - 1])"
    by (auto simp: distinct_map inj_on_def dest: deviceID_inj)
  moreover have "distinct (map idPrefix cs) \<longrightarrow> distinct (map fd_ID (discoverDevices cs))"
    by (simp add: distinct_ids_discover)
  ultimately show ?thesis by blast
qed

theorem ids_follow_template_witness:
  "0 \<le> cd_Count gpuCount0 \<and> 0 \<le> cd_Count fpgaCount2
   \<and> distinct (map idPrefix [gpuCount0, fpgaCount2])
   \<and> map fd_ID (discoverDevices [gpuCount0, fpgaCount2])
        = [''gpu/nvidia/a100/0'', ''fpga/xilinx/u250/0'', ''fpga/xilinx/u250/1'']
   \<and> distinct (map (deviceID fpgaCount2) [0..max (cd_Count fpgaCount2) 1 - 1])
   \<and> distinct (map fd_ID (discoverDevices [gpuCount0, fpgaCount2]))"
proof -
  have h: "\<forall>c\<in>set [gpuCount0, fpgaCount2]. 0 \<le> cd_Count c" by simp
  have p: "distinct (map idPrefix [gpuCount0, fpgaCount2])" by (simp add: idPrefix_def)
  have e: "formatInt 0 = ''0''" "formatInt 1 = ''1''"
    by (simp_all add: formatInt_def formatNat.simps digit_char_def)
  from ids_follow_template [OF h] p e show ?thesis
    by (simp add: upto_rec1)
qed

text \<open>
  C3. With an empty configured list the cache stays empty after a discovery pass, so a
  second invocation of the detection step sees an empty cache again, runs discovery and
  grouping again and sends again: they do not run at most once.
\<close>

theorem discovery_repeats_on_empty_cache:
  "identifiedDevices pluginNoEntries = []
   \<and> writeFingerprintToChannel id pluginNoEntries []
       = (pluginNoEntries,
          [LogInfo ''Found devices'' ''count'' 0, ChanSend \<lparr>fr_Devices = [], fr_Error = None\<rparr>])
   \<and> writeFingerprintToChannel id pluginNoEntries
         [LogInfo ''Found devices'' ''count'' 0, ChanSend \<lparr>fr_Devices = [], fr_Error = None\<rparr>]
       = (pluginNoEntries,
          [LogInfo ''Found devices'' ''count'' 0, ChanSend \<lparr>fr_Devices = [], fr_Error = None\<rparr>,
           LogInfo ''Found devices'' ''count'' 0, ChanSend \<lparr>fr_Devices = [], fr_Error = None\<rparr>])"
  by (simp add: eval_step)

text \<open>
  C3, as the code has it. On a non-empty identified-devices cache the detection step sends
  nothing and changes nothing. Discovery and grouping run on exactly the invocations that
  see an empty cache. A run that discovers at least one device leaves the cache non-empty,
  so that every later invocation is such a no-op and they have run once; a run that
  discovers no device leaves the state as it was.
\<close>

theorem cache_hit_short_circuit:
  "(identifiedDevices d \<noteq> [] \<longrightarrow> writeFingerprintToChannel ro d tr = (d, tr))
   \<and> (identifiedDevices d = [] \<longrightarrow>
        (\<exists>r. snd (writeFingerprintToChannel ro d tr)
               = tr @ [LogInfo ''Found devices'' ''count''
                         (int (length (discoverDevices (configuredDevices d)))),
                       ChanSend r]))
   \<and> (identifiedDevices d = [] \<and> discoverDevices (configuredDevices d) \<noteq> [] \<longrightarrow>
        identifiedDevices (fst (writeFingerprintToChannel ro d tr)) \<noteq> []
        \<and> (\<forall>ro' tr'. writeFingerprintToChannel ro' (fst (writeFingerprintToChannel ro d tr)) tr'
                        = (fst (writeFingerprintToChannel ro d tr), tr')))
   \<and> (identifiedDevices d = [] \<and> discoverDevices (configuredDevices d) = [] \<longrightarrow>
        fst (writeFingerprintToChannel ro d tr) = d)"
proof -
  have hit: "identifiedDevices d \<noteq> [] \<longrightarrow> writeFingerprintToChannel ro d tr = (d, tr)"
    by (simp add: wftc_hit)
  have miss: "identifiedDevices d = [] \<longrightarrow>
        (\<exists>r. snd (writeFingerprintToChannel ro d tr)
               = tr @ [LogInfo ''Found devices'' ''count''
                         (int (length (discoverDevices (configuredDevices d)))),
                       ChanSend r])"
    by (simp add: wftc_miss)
  have filled: "identifiedDevices (fst (writeFingerprintToChannel ro d tr)) \<noteq> []"
    if "identifiedDevices d = []" "discoverDevices (configuredDevices d) \<noteq> []"
    using that by (simp add: wftc_miss groupLoop_cache_nonempty)
  have once: "identifiedDevices d = [] \<and> discoverDevices (configuredDevices d) \<noteq> [] \<longrightarrow>
        identifiedDevices (fst (writeFingerprintToChannel ro d tr)) \<noteq> []
        \<and> (\<forall>ro' tr'. writeFingerprintToChannel ro' (fst (writeFingerprintToChannel ro d tr)) tr'
                        = (fst (writeFingerprintToChannel ro d tr), tr'))"
    using filled by (simp add: wftc_hit)
  have again: "identifiedDevices d = [] \<and> discoverDevices (configuredDevices d) = [] \<longrightarrow>
        fst (writeFingerprintToChannel ro d tr) = d"
    by (auto simp: wftc_miss)
  from hit miss once again show ?thesis by blast
qed

theorem cache_hit_short_circuit_witness:
  "identifiedDevices pluginOneGpuFound \<noteq> []
   \<and> writeFingerprintToChannel rev pluginOneGpuFound [] = (pluginOneGpuFound, [])
   \<and> identifiedDevices pluginOneGpu = []
   \<and> discoverDevices (configuredDevices pluginOneGpu) \<noteq> []
   \<and> fst (writeFingerprintToChannel rev pluginOneGpu []) = pluginOneGpuFound
   \<and> writeFingerprintToChannel rev (fst (writeFingerprintToChannel rev pluginOneGpu [])) []
       = (fst (writeFingerprintToChannel rev pluginOneGpu []), [])
   \<and> identifiedDevices pluginNoEntries = []
   \<and> discoverDevices (configuredDevices pluginNoEntries) = []
   \<and> fst (writeFingerprintToChannel rev pluginNoEntries []) = pluginNoEntries"
proof -
  have a: "identifiedDevices pluginOneGpuFound \<noteq> []" by simp
  have b: "identifiedDevices pluginOneGpu = []" by simp
  have c: "discoverDevices (configuredDevices pluginOneGpu) \<noteq> []"
    by (simp add: discoverDevices_eq expandEntry_def effectiveCount_def)
  have e: "identifiedDevices pluginNoEntries = []" by simp
  have f: "discoverDevices (configuredDevices pluginNoEntries) = []"
    by (simp add: discoverDevices_eq)
  have g: "fst (writeFingerprintToChannel rev pluginOneGpu []) = pluginOneGpuFound"
    by (simp add: eval_step)
  from cache_hit_short_circuit [of pluginOneGpuFound rev "[]"] a
  have 1: "writeFingerprintToChannel rev pluginOneGpuFound [] = (pluginOneGpuFound, [])"
    by blast
  from cache_hit_short_circuit [of pluginOneGpu rev "[]"] b c
  have 2: "writeFingerprintToChannel rev (fst (writeFingerprintToChannel rev pluginOneGpu [])) []
       = (fst (writeFingerprintToChannel rev pluginOneGpu []), [])"
    by blast
  from cache_hit_short_circuit [of pluginNoEntries rev "[]"] e f
  have 3: "fst (writeFingerprintToChannel rev pluginNoEntries []) = pluginNoEntries"
    by blast
  from a b c e f g 1 2 3 show ?thesis by blast
qed

text \<open>
  C5. With an empty configured list the empty Snapshot is not emitted exactly once: a run
  with two timer ticks before the cancellation sends it twice.
\<close>

theorem empty_snapshot_sent_on_every_tick:
  "doFingerprint id [TickerC, TickerC, CtxDone] pluginNoEntries
     = (pluginNoEntries,
        [TimerNew 0,
         TimerReset 30, LogInfo ''Found devices'' ''count'' 0,
         ChanSend \<lparr>fr_Devices = [], fr_Error = None\<rparr>,
         TimerReset 30, LogInfo ''Found devices'' ''count'' 0,
         ChanSend \<lparr>fr_Devices = [], fr_Error = None\<rparr>,
         ChanClose],
        True)"
  by (simp add: eval_step)

text \<open>
  C5, as the code has it. For an empty configured list a discovery pass sends a Snapshot
  with zero DeviceGroups and leaves the cache empty, so the loop sends the empty Snapshot
  once on every timer tick: a run with \<open>n\<close> ticks before the cancellation sends it exactly
  \<open>n\<close> times, and then closes the stream.
\<close>

theorem empty_configuration_snapshots:
  assumes "rangeOrder ro" and "configuredDevices d = []" and "identifiedDevices d = []"
  shows "writeFingerprintToChannel ro d tr
           = (d, tr @ [LogInfo ''Found devices'' ''count'' 0,
                       ChanSend \<lparr>fr_Devices = [], fr_Error = None\<rparr>])
       \<and> doFingerprint ro (replicate n TickerC @ CtxDone # rest) d
           = (d,
              TimerNew 0
                # concat (replicate n [TimerReset (fingerprintPeriod d),
                                       LogInfo ''Found devices'' ''count'' 0,
                                       ChanSend \<lparr>fr_Devices = [], fr_Error = None\<rparr>])
                @ [ChanClose],
              True)
       \<and> sentSnapshots (fst (snd (doFingerprint ro (replicate n TickerC @ CtxDone # rest) d)))
           = replicate n \<lparr>fr_Devices = [], fr_Error = None\<rparr>"
proof -
  have step: "writeFingerprintToChannel ro d tr
           = (d, tr @ [LogInfo ''Found devices'' ''count'' 0,
                       ChanSend \<lparr>fr_Devices = [], fr_Error = None\<rparr>])"
    using assms
    by (simp add: wftc_miss discoverDevices_eq discoverySnapshot_def NewFingerprint_def
        rangeOrder_empty)
  have run: "doFingerprint ro (replicate n TickerC @ CtxDone # rest) d
           = (d,
              TimerNew 0
                # concat (replicate n [TimerReset (fingerprintPeriod d),
                                       LogInfo ''Found devices'' ''count'' 0,
                                       ChanSend \<lparr>fr_Devices = [], fr_Error = None\<rparr>])
                @ [ChanClose],
              True)"
    by (simp add: doFingerprint_cancel tick_funpow_no_entries [OF assms])
  have "sentSnapshots (fst (snd (doFingerprint ro (replicate n TickerC @ CtxDone # rest) d)))
           = replicate n \<lparr>fr_Devices = [], fr_Error = None\<rparr>"
    by (simp add: run sentSnapshots_append sentSnapshots_rounds)
  with step run show ?thesis by blast
qed

theorem empty_configuration_snapshots_witness:
  "rangeOrder rev \<and> configuredDevices pluginNoEntries = [] \<and> identifiedDevices pluginNoEntries = []
   \<and> sentSnapshots (fst (snd (doFingerprint rev [TickerC, TickerC, TickerC, CtxDone] pluginNoEntries)))
       = [\<lparr>fr_Devices = [], fr_Error = None\<rparr>, \<lparr>fr_Devices = [], fr_Error = None\<rparr>,
          \<lparr>fr_Devices = [], fr_Error = None\<rparr>]"
proof -
  have h1: "rangeOrder rev" by (rule rangeOrder_rev)
  have h2: "configuredDevices pluginNoEntries = []" by simp
  have h3: "identifiedDevices pluginNoEntries = []" by simp
  have s: "[TickerC, TickerC, TickerC, CtxDone] = replicate 3 TickerC @ CtxDone # []"
    by (simp add: numeral_3_eq_3)
  from empty_configuration_snapshots [OF h1 h2 h3, of _ 3 "[]"]
  have "sentSnapshots (fst (snd (doFingerprint rev [TickerC, TickerC, TickerC, CtxDone] pluginNoEntries)))
       = replicate 3 \<lparr>fr_Devices = [], fr_Error = None\<rparr>"
    unfolding s by blast
  with h1 h2 h3 show ?thesis by (simp add: numeral_3_eq_3)
qed

text \<open>
  C4. Every DeviceGroup that is sent has as Name the Model shared by its members, which
  are the discovered devices of that Model in the order of their discovery, and as Vendor
  and Type those of the first of them, the first device put into the bucket; these are
  the Vendor and Type of the first configured entry of that Model that yields a device,
  and those of later entries of the same Model are dropped. For the list of Scenario 3
  the one group named \<open>m\<close> has the Vendor and Type of the first entry, whatever the order
  of iteration over the buckets.
\<close>

theorem group_identity_from_first_member:
  assumes "rangeOrder ro"
  shows "(\<forall>r og. ChanSend r \<in> set (snd (writeFingerprintToChannel ro d []))
                 \<and> og \<in> set (fr_Devices r) \<longrightarrow>
           (\<exists>g first members c.
              og = Some g
              \<and> filter (\<lambda>f. gd_Model (fd_device f) = dg_Name g)
                       (discoverDevices (configuredDevices d)) = first # members
              \<and> map dev_ID (dg_Devices g) = map fd_ID (first # members)
              \<and> dg_Vendor g = gd_Vendor (fd_device first)
              \<and> dg_Type g = gd_Type (fd_device first)
              \<and> find (\<lambda>c. cd_Model c = dg_Name g \<and> 0 \<le> cd_Count c) (configuredDevices d) = Some c
              \<and> dg_Vendor g = cd_Vendor c \<and> dg_Type g = cd_Type c))
       \<and> snd (writeFingerprintToChannel ro pluginSameModel [])
           = [LogInfo ''Found devices'' ''count'' 2, ChanSend snapshotM]"
proof -
  have groups: "\<exists>g first members c.
              og = Some g
              \<and> filter (\<lambda>f. gd_Model (fd_device f) = dg_Name g)
                       (discoverDevices (configuredDevices d)) = first # members
              \<and> map dev_ID (dg_Devices g) = map fd_ID (first # members)
              \<and> dg_Vendor g = gd_Vendor (fd_device first)
              \<and> dg_Type g = gd_Type (fd_device first)
              \<and> find (\<lambda>c. cd_Model c = dg_Name g \<and> 0 \<le> cd_Count c) (configuredDevices d) = Some c
              \<and> dg_Vendor g = cd_Vendor c \<and> dg_Type g = cd_Type c"
    if sent: "ChanSend r \<in> set (snd (writeFingerprintToChannel ro d []))"
      and og: "og \<in> set (fr_Devices r)" for r og
  proof -
    let ?cs = "configuredDevices d"
    from sent have "r = discoverySnapshot ro ?cs" by (rule wftc_sent)
    with og assms obtain k first members
      where bucket: "filter (\<lambda>f. gd_Model (fd_device f) = k) (discoverDevices ?cs) = first # members"
        and og': "og = deviceGroupFromFingerprintData k (first # members)"
      using snapshot_group by blast
    from deviceGroup_is_Some obtain g where g: "deviceGroupFromFingerprintData k (first # members) = Some g"
      by blast
    from deviceGroup_of_bucket [OF g]
    have name: "dg_Name g = k"
      and vendor: "dg_Vendor g = gd_Vendor (fd_device first)"
      and type: "dg_Type g = gd_Type (fd_device first)"
      and ids: "map dev_ID (dg_Devices g) = map fd_ID (first # members)"
      by blast+
    from bucket have "concat (map expandEntry (filter (\<lambda>c. cd_Model c = k) ?cs)) = first # members"
      by (simp only: filter_model_discover)
    from first_of_model [OF this] obtain c
      where c: "find (\<lambda>c. cd_Model c = k \<and> 0 \<le> cd_Count c) ?cs = Some c"
        and dev: "fd_device first = \<lparr>gd_Type = cd_Type c, gd_Vendor = cd_Vendor c, gd_Model = cd_Model c\<rparr>"
      by blast
    from dev vendor type have "dg_Vendor g = cd_Vendor c" "dg_Type g = cd_Type c" by simp_all
    with og' g name vendor type ids bucket c show ?thesis by blast
  qed
  have "identifiedDevices pluginSameModel = []" by simp
  then have "snd (writeFingerprintToChannel ro pluginSameModel [])
           = [LogInfo ''Found devices'' ''count'' (int (length (discoverDevices [sameModel1, sameModel2]))),
              ChanSend (discoverySnapshot ro [sameModel1, sameModel2])]"
    by (simp add: wftc_miss)
  moreover have "length (discoverDevices [sameModel1, sameModel2]) = 2"
    by (simp add: length_discoverDevices effectiveCount_def)
  ultimately have "snd (writeFingerprintToChannel ro pluginSameModel [])
           = [LogInfo ''Found devices'' ''count'' 2, ChanSend snapshotM]"
    by (simp add: snapshot_same_model [OF assms])
  with groups show ?thesis by blast
qed

theorem group_identity_from_first_member_witness:
  "rangeOrder rev
   \<and> ChanSend snapshotM \<in> set (snd (writeFingerprintToChannel rev pluginSameModel []))
   \<and> Some groupM \<in> set (fr_Devices snapshotM)
   \<and> (\<exists>first members c.
         filter (\<lambda>f. gd_Model (fd_device f) = ''m'') (discoverDevices [sameModel1, sameModel2])
           = first # members
         \<and> map dev_ID (dg_Devices groupM) = map fd_ID (first # members)
         \<and> dg_Vendor groupM = gd_Vendor (fd_device first)
         \<and> dg_Type groupM = gd_Type (fd_device first)
         \<and> find (\<lambda>c. cd_Model c = ''m'' \<and> 0 \<le> cd_Count c) [sameModel1, sameModel2] = Some c
         \<and> dg_Vendor groupM = cd_Vendor c \<and> dg_Type groupM = cd_Type c)
   \<and> find (\<lambda>c. cd_Model c = ''m'' \<and> 0 \<le> cd_Count c) [sameModel1, sameModel2] = Some sameModel1"
proof -
  note inst = group_identity_from_first_member [OF rangeOrder_rev, of pluginSameModel]
  from inst have sent: "snd (writeFingerprintToChannel rev pluginSameModel [])
           = [LogInfo ''Found devices'' ''count'' 2, ChanSend snapshotM]"
    by blast
  then have m: "ChanSend snapshotM \<in> set (snd (writeFingerprintToChannel rev pluginSameModel []))"
    by simp
  have og: "Some groupM \<in> set (fr_Devices snapshotM)" by simp
  from inst m og have "\<exists>g first members c.
              Some groupM = Some g
              \<and> filter (\<lambda>f. gd_Model (fd_device f) = dg_Name g)
                       (discoverDevices (configuredDevices pluginSameModel)) = first # members
              \<and> map dev_ID (dg_Devices g) = map fd_ID (first # members)
              \<and> dg_Vendor g = gd_Vendor (fd_device first)
              \<and> dg_Type g = gd_Type (fd_device first)
              \<and> find (\<lambda>c. cd_Model c = dg_Name g \<and> 0 \<le> cd_Count c) (configuredDevices pluginSameModel) = Some c
              \<and> dg_Vendor g = cd_Vendor c \<and> dg_Type g = cd_Type c"
    by blast
  then obtain g first members c where "Some groupM = Some g"
      and "filter (\<lambda>f. gd_Model (fd_device f) = dg_Name g)
                       (discoverDevices (configuredDevices pluginSameModel)) = first # members"
      and "map dev_ID (dg_Devices g) = map fd_ID (first # members)"
      and "dg_Vendor g = gd_Vendor (fd_device first)"
      and "dg_Type g = gd_Type (fd_device first)"
      and "find (\<lambda>c. cd_Model c = dg_Name g \<and> 0 \<le> cd_Count c) (configuredDevices pluginSameModel) = Some c"
      and "dg_Vendor g = cd_Vendor c" and "dg_Type g = cd_Type c"
    by blast
  then have "\<exists>first members c.
         filter (\<lambda>f. gd_Model (fd_device f) = ''m'') (discoverDevices [sameModel1, sameModel2])
           = first # members
         \<and> map dev_ID (dg_Devices groupM) = map fd_ID (first # members)
         \<and> dg_Vendor groupM = gd_Vendor (fd_device first)
         \<and> dg_Type groupM = gd_Type (fd_device first)
         \<and> find (\<lambda>c. cd_Model c = ''m'' \<and> 0 \<le> cd_Count c) [sameModel1, sameModel2] = Some c
         \<and> dg_Vendor groupM = cd_Vendor c \<and> dg_Type groupM = cd_Type c"
    by (intro exI [of _ first] exI [of _ members] exI [of _ c]) auto
  moreover have "find (\<lambda>c. cd_Model c = ''m'' \<and> 0 \<le> cd_Count c) [sameModel1, sameModel2] = Some sameModel1"
    by simp
  ultimately show ?thesis using rangeOrder_rev m og by blast
qed

text \<open>
  C6. Every DeviceGroup of a Snapshot that the loop sends has at least one member, for every
  configured list. \<open>deviceGroupFromFingerprintData\<close> gives no group exactly for the empty
  list of devices, and no bucket that the grouping loop builds is empty, so that branch
  is not reached.
\<close>

theorem no_empty_group_emitted:
  "(deviceGroupFromFingerprintData n ds = None \<longleftrightarrow> ds = [])
   \<and> (\<forall>(k, v)\<in>set (fst (groupLoop devs ([], idn))). v \<noteq> [])
   \<and> (rangeOrder ro \<longrightarrow>
        (\<forall>r og. ChanSend r \<in> set (fst (snd (doFingerprint ro sched d)))
                \<and> og \<in> set (fr_Devices r) \<longrightarrow>
           (\<exists>g. og = Some g \<and> dg_Devices g \<noteq> [])))"
proof -
  have a: "deviceGroupFromFingerprintData n ds = None \<longleftrightarrow> ds = []"
    by (cases ds) (simp_all add: deviceGroupFromFingerprintData_def)
  have b: "\<forall>(k, v)\<in>set (fst (groupLoop devs ([], idn))). v \<noteq> []"
    using groupLoop_entry(2) by blast
  have c: "\<exists>g. og = Some g \<and> dg_Devices g \<noteq> []"
    if "rangeOrder ro" "ChanSend r \<in> set (fst (snd (doFingerprint ro sched d)))"
      "og \<in> set (fr_Devices r)" for r og
  proof -
    from that(2) have "r = discoverySnapshot ro (configuredDevices d)" by (rule doFingerprint_sent)
    with that(1,3) obtain k first members
      where "og = deviceGroupFromFingerprintData k (first # members)"
      using snapshot_group by blast
    then show ?thesis by (simp add: deviceGroupFromFingerprintData_def)
  qed
  from a b c show ?thesis by blast
qed

theorem no_empty_group_emitted_witness:
  "rangeOrder rev
   \<and> ChanSend snapshotTwoEntries
        \<in> set (fst (snd (doFingerprint rev [TickerC, TickerC, CtxDone] pluginTwoEntries)))
   \<and> Some groupA100 \<in> set (fr_Devices snapshotTwoEntries)
   \<and> (\<exists>g. Some groupA100 = Some g \<and> dg_Devices g \<noteq> [])
   \<and> (''a100'', [newFingerprintedDevice gpuCount0 0])
        \<in> set (fst (groupLoop [newFingerprintedDevice gpuCount0 0] ([], [])))"
proof -
  have m: "ChanSend snapshotTwoEntries
        \<in> set (fst (snd (doFingerprint rev [TickerC, TickerC, CtxDone] pluginTwoEntries)))"
    by (simp add: run_two_entries)
  have og: "Some groupA100 \<in> set (fr_Devices snapshotTwoEntries)" by simp
  from no_empty_group_emitted [of _ _ _ _ rev "[TickerC, TickerC, CtxDone]" pluginTwoEntries]
    rangeOrder_rev m og
  have "\<exists>g. Some groupA100 = Some g \<and> dg_Devices g \<noteq> []" by blast
  moreover have "(''a100'', [newFingerprintedDevice gpuCount0 0])
        \<in> set (fst (groupLoop [newFingerprintedDevice gpuCount0 0] ([], [])))"
    by (simp add: newFingerprintedDevice_def bucketOf_def)
  ultimately show ?thesis using rangeOrder_rev m og by blast
qed

text \<open>
  C7. Every device summary of every Snapshot that the loop sends has \<open>Healthy\<close> true and
  no \<open>HwLocality\<close>, for every configured list, schedule and order of iteration.
\<close>

theorem devices_healthy_without_locality:
  "(\<forall>g dv. deviceGroupFromFingerprintData n ds = Some g \<and> dv \<in> set (dg_Devices g) \<longrightarrow>
       dev_Healthy dv \<and> dev_HwLocality dv = None)
   \<and> (\<forall>r g dv. ChanSend r \<in> set (fst (snd (doFingerprint ro sched d)))
                \<and> Some g \<in> set (fr_Devices r) \<and> dv \<in> set (dg_Devices g) \<longrightarrow>
         dev_Healthy dv \<and> dev_HwLocality dv = None)"
proof -
  have a: "dev_Healthy dv \<and> dev_HwLocality dv = None"
    if "deviceGroupFromFingerprintData k v = Some g" "dv \<in> set (dg_Devices g)" for k v g dv
    using that by (cases v) (auto simp: deviceGroupFromFingerprintData_def)
  have b: "dev_Healthy dv \<and> dev_HwLocality dv = None"
    if "ChanSend r \<in> set (fst (snd (doFingerprint ro sched d)))"
      "Some g \<in> set (fr_Devices r)" "dv \<in> set (dg_Devices g)" for r g dv
  proof -
    from that(1) have "r = discoverySnapshot ro (configuredDevices d)" by (rule doFingerprint_sent)
    with that(2) obtain k v where "deviceGroupFromFingerprintData k v = Some g"
      by (auto simp: discoverySnapshot_def NewFingerprint_def)
    with that(3) show ?thesis by (rule a [rotated])
  qed
  from a b show ?thesis by blast
qed

theorem devices_healthy_without_locality_witness:
  "ChanSend snapshotTwoEntries
        \<in> set (fst (snd (doFingerprint rev [TickerC, TickerC, CtxDone] pluginTwoEntries)))
   \<and> Some groupU250 \<in> set (fr_Devices snapshotTwoEntries)
   \<and> \<lparr>dev_ID = ''fpga/xilinx/u250/1'', dev_Healthy = True, dev_HwLocality = None\<rparr>
        \<in> set (dg_Devices groupU250)
   \<and> dev_Healthy \<lparr>dev_ID = ''fpga/xilinx/u250/1'', dev_Healthy = True, dev_HwLocality = None\<rparr>
   \<and> dev_HwLocality \<lparr>dev_ID = ''fpga/xilinx/u250/1'', dev_Healthy = True, dev_HwLocality = None\<rparr>
       = None"
proof -
  have m: "ChanSend snapshotTwoEntries
        \<in> set (fst (snd (doFingerprint rev [TickerC, TickerC, CtxDone] pluginTwoEntries)))"
    by (simp add: run_two_entries)
  have og: "Some groupU250 \<in> set (fr_Devices snapshotTwoEntries)" by simp
  have dv: "\<lparr>dev_ID = ''fpga/xilinx/u250/1'', dev_Healthy = True, dev_HwLocality = None\<rparr>
        \<in> set (dg_Devices groupU250)" by simp
  from devices_healthy_without_locality
         [of _ _ rev "[TickerC, TickerC, CtxDone]" pluginTwoEntries] m og dv
  have "dev_Healthy \<lparr>dev_ID = ''fpga/xilinx/u250/1'', dev_Healthy = True, dev_HwLocality = None\<rparr>
   \<and> dev_HwLocality \<lparr>dev_ID = ''fpga/xilinx/u250/1'', dev_Healthy = True, dev_HwLocality = None\<rparr>
       = None"
    by blast
  with m og dv show ?thesis by blast
qed



text \<open>
  C8. When the \<open>select\<close> of some iteration takes the cancellation case, the loop returns:
  it has then run one complete iteration (re-arm, then the whole detection step) for every
  timer case taken before, it schedules no further tick, and it closes the stream as the
  last thing it does, once. So nothing is sent after the close, no response carries an
  error, and whatever the schedule holds after the cancellation has no effect.
\<close>

theorem cancellation_closes_stream:
  assumes "CtxDone \<in> set sched"
  shows "doFingerprint ro sched d
           = (fst (doFingerprint ro (replicate (length (takeWhile (\<lambda>s. s \<noteq> CtxDone) sched)) TickerC) d),
              fst (snd (doFingerprint ro (replicate (length (takeWhile (\<lambda>s. s \<noteq> CtxDone) sched)) TickerC) d))
                @ [ChanClose],
              True)
       \<and> \<not> snd (snd (doFingerprint ro (replicate (length (takeWhile (\<lambda>s. s \<noteq> CtxDone) sched)) TickerC) d))
       \<and> ChanClose \<notin> set (fst (snd (doFingerprint ro
                                (replicate (length (takeWhile (\<lambda>s. s \<noteq> CtxDone) sched)) TickerC) d)))
       \<and> filter isTimerEvent (fst (snd (doFingerprint ro sched d)))
           = TimerNew 0 # replicate (length (takeWhile (\<lambda>s. s \<noteq> CtxDone) sched))
                                    (TimerReset (fingerprintPeriod d))
       \<and> (\<forall>r. ChanSend r \<in> set (fst (snd (doFingerprint ro sched d))) \<longrightarrow> fr_Error r = None)"
proof -
  let ?n = "length (takeWhile (\<lambda>s. s \<noteq> CtxDone) sched)"
  let ?s = "(tick ro ^^ ?n) (d, [TimerNew 0])"
  from sched_cancelled [OF assms] obtain rest where "sched = replicate ?n TickerC @ CtxDone # rest"
    by blast
  then have "doFingerprint ro sched d = doFingerprint ro (replicate ?n TickerC @ CtxDone # rest) d"
    by simp
  then have run: "doFingerprint ro sched d = (fst ?s, snd ?s @ [ChanClose], True)"
    by (simp only: doFingerprint_cancel)
  have pre: "doFingerprint ro (replicate ?n TickerC) d = (fst ?s, snd ?s, False)"
    by (rule doFingerprint_run)
  have noclose: "ChanClose \<notin> set (snd ?s)"
    using tick_funpow_events [where ro = ro and n = ?n and s = "(d, [TimerNew 0])"] by auto
  have timers: "filter isTimerEvent (snd ?s @ [ChanClose])
           = TimerNew 0 # replicate ?n (TimerReset (fingerprintPeriod d))"
    by (simp add: tick_funpow_timer_events)
  have noerr: "fr_Error r = None" if "ChanSend r \<in> set (fst (snd (doFingerprint ro sched d)))" for r
    using doFingerprint_sent [OF that] by (simp add: snapshot_no_error)
  from run pre noclose timers noerr show ?thesis by simp
qed

theorem cancellation_closes_stream_witness:
  "CtxDone \<in> set [TickerC, TickerC, CtxDone, TickerC]
   \<and> doFingerprint rev [TickerC, TickerC, CtxDone, TickerC] pluginTwoEntries
       = (pluginTwoEntriesFound,
          [TimerNew 0, TimerReset 30, LogInfo ''Found devices'' ''count'' 3,
           ChanSend snapshotTwoEntries, TimerReset 30] @ [ChanClose],
          True)
   \<and> doFingerprint rev [TickerC, TickerC] pluginTwoEntries
       = (pluginTwoEntriesFound,
          [TimerNew 0, TimerReset 30, LogInfo ''Found devices'' ''count'' 3,
           ChanSend snapshotTwoEntries, TimerReset 30],
          False)
   \<and> filter isTimerEvent
        (fst (snd (doFingerprint rev [TickerC, TickerC, CtxDone, TickerC] pluginTwoEntries)))
       = [TimerNew 0, TimerReset 30, TimerReset 30]
   \<and> fr_Error snapshotTwoEntries = None"
proof -
  have h: "CtxDone \<in> set [TickerC, TickerC, CtxDone, TickerC]" by simp
  have n: "replicate (length (takeWhile (\<lambda>s. s \<noteq> CtxDone) [TickerC, TickerC, CtxDone, TickerC])) TickerC
             = [TickerC, TickerC]"
    by simp
  note inst = cancellation_closes_stream [OF h, of rev pluginTwoEntries, unfolded n]
  from inst have 1: "doFingerprint rev [TickerC, TickerC, CtxDone, TickerC] pluginTwoEntries
       = (fst (doFingerprint rev [TickerC, TickerC] pluginTwoEntries),
          fst (snd (doFingerprint rev [TickerC, TickerC] pluginTwoEntries)) @ [ChanClose], True)"
    by blast
  from inst have 2: "filter isTimerEvent
        (fst (snd (doFingerprint rev [TickerC, TickerC, CtxDone, TickerC] pluginTwoEntries)))
       = TimerNew 0 # replicate (length (takeWhile (\<lambda>s. s \<noteq> CtxDone) [TickerC, TickerC, CtxDone, TickerC]))
                                    (TimerReset (fingerprintPeriod pluginTwoEntries))"
    by blast
  from 1 have 3: "doFingerprint rev [TickerC, TickerC, CtxDone, TickerC] pluginTwoEntries
       = (pluginTwoEntriesFound,
          [TimerNew 0, TimerReset 30, LogInfo ''Found devices'' ''count'' 3,
           ChanSend snapshotTwoEntries, TimerReset 30] @ [ChanClose],
          True)"
    by (simp only: run_two_ticks fst_conv snd_conv)
  from 2 have 4: "filter isTimerEvent
        (fst (snd (doFingerprint rev [TickerC, TickerC, CtxDone, TickerC] pluginTwoEntries)))
       = [TimerNew 0, TimerReset 30, TimerReset 30]"
    by (simp add: numeral_2_eq_2)
  from h 3 4 run_two_ticks show ?thesis by simp
qed

text \<open>
  C9. The loop first arms the timer with delay zero, and arms no second timer. Every
  iteration that takes the timer case re-arms the timer with exactly the configured
  period and then runs the detection step, so that after \<open>n\<close> such iterations the timer
  operations are the initial arming followed by \<open>n\<close> re-armings with the period; and as
  long as the cancellation case is not taken the loop has not returned, for every \<open>n\<close>.
\<close>

theorem timer_rearmed_with_period:
  "(\<exists>ext. fst (snd (doFingerprint ro sched d)) = TimerNew 0 # ext \<and> (\<forall>p. TimerNew p \<notin> set ext))
   \<and> doFingerprint ro [TickerC] d
       = (fst (writeFingerprintToChannel ro d [TimerNew 0, TimerReset (fingerprintPeriod d)]),
          snd (writeFingerprintToChannel ro d [TimerNew 0, TimerReset (fingerprintPeriod d)]),
          False)
   \<and> doFingerprint ro (replicate (Suc n) TickerC) d
       = (fst (writeFingerprintToChannel ro
                 (fst (doFingerprint ro (replicate n TickerC) d))
                 (fst (snd (doFingerprint ro (replicate n TickerC) d))
                    @ [TimerReset (fingerprintPeriod d)])),
          snd (writeFingerprintToChannel ro
                 (fst (doFingerprint ro (replicate n TickerC) d))
                 (fst (snd (doFingerprint ro (replicate n TickerC) d))
                    @ [TimerReset (fingerprintPeriod d)])),
          False)
   \<and> filter isTimerEvent (fst (snd (doFingerprint ro (replicate n TickerC) d)))
       = TimerNew 0 # replicate n (TimerReset (fingerprintPeriod d))
   \<and> \<not> snd (snd (doFingerprint ro (replicate n TickerC) d))"
proof -
  let ?s = "(tick ro ^^ n) (d, [TimerNew 0])"
  have first: "doFingerprint ro [TickerC] d
       = (fst (writeFingerprintToChannel ro d [TimerNew 0, TimerReset (fingerprintPeriod d)]),
          snd (writeFingerprintToChannel ro d [TimerNew 0, TimerReset (fingerprintPeriod d)]),
          False)"
    by (simp add: doFingerprint_def split: prod.splits)
  have "(tick ro ^^ Suc n) (d, [TimerNew 0])
          = writeFingerprintToChannel ro (fst ?s) (snd ?s @ [TimerReset (fingerprintPeriod d)])"
    by (simp add: tick_def tick_funpow_config)
  then have next_tick: "doFingerprint ro (replicate (Suc n) TickerC) d
       = (fst (writeFingerprintToChannel ro
                 (fst (doFingerprint ro (replicate n TickerC) d))
                 (fst (snd (doFingerprint ro (replicate n TickerC) d))
                    @ [TimerReset (fingerprintPeriod d)])),
          snd (writeFingerprintToChannel ro
                 (fst (doFingerprint ro (replicate n TickerC) d))
                 (fst (snd (doFingerprint ro (replicate n TickerC) d))
                    @ [TimerReset (fingerprintPeriod d)])),
          False)"
    by (simp only: doFingerprint_run fst_conv snd_conv)
  have timers: "filter isTimerEvent (fst (snd (doFingerprint ro (replicate n TickerC) d)))
       = TimerNew 0 # replicate n (TimerReset (fingerprintPeriod d))"
    by (simp add: doFingerprint_run tick_funpow_timer_events)
  have running: "\<not> snd (snd (doFingerprint ro (replicate n TickerC) d))"
    by (simp add: doFingerprint_run)
  from doFingerprint_trace first next_tick timers running show ?thesis by blast
qed

theorem timer_rearmed_with_period_witness:
  "doFingerprint rev [TickerC] pluginTwoEntries
     = (pluginTwoEntriesFound,
        [TimerNew 0, TimerReset 30, LogInfo ''Found devices'' ''count'' 3,
         ChanSend snapshotTwoEntries],
        False)
   \<and> doFingerprint rev (replicate (Suc 1) TickerC) pluginTwoEntries
     = (pluginTwoEntriesFound,
        [TimerNew 0, TimerReset 30, LogInfo ''Found devices'' ''count'' 3,
         ChanSend snapshotTwoEntries, TimerReset 30],
        False)
   \<and> filter isTimerEvent (fst (snd (doFingerprint rev (replicate 1 TickerC) pluginTwoEntries)))
       = [TimerNew 0, TimerReset 30]"
proof -
  note inst = timer_rearmed_with_period [of rev "[]" pluginTwoEntries 1]
  have one: "replicate 1 TickerC = [TickerC]" by simp
  from inst have "doFingerprint rev (replicate (Suc 1) TickerC) pluginTwoEntries
       = (fst (writeFingerprintToChannel rev
                 (fst (doFingerprint rev (replicate 1 TickerC) pluginTwoEntries))
                 (fst (snd (doFingerprint rev (replicate 1 TickerC) pluginTwoEntries))
                    @ [TimerReset (fingerprintPeriod pluginTwoEntries)])),
          snd (writeFingerprintToChannel rev
                 (fst (doFingerprint rev (replicate 1 TickerC) pluginTwoEntries))
                 (fst (snd (doFingerprint rev (replicate 1 TickerC) pluginTwoEntries))
                    @ [TimerReset (fingerprintPeriod pluginTwoEntries)])),
          False)"
    by blast
  then have 2: "doFingerprint rev (replicate (Suc 1) TickerC) pluginTwoEntries
     = (pluginTwoEntriesFound,
        [TimerNew 0, TimerReset 30, LogInfo ''Found devices'' ''count'' 3,
         ChanSend snapshotTwoEntries, TimerReset 30],
        False)"
    by (simp add: one run_one_tick wftc_hit)
  from inst have "filter isTimerEvent (fst (snd (doFingerprint rev (replicate 1 TickerC) pluginTwoEntries)))
       = TimerNew 0 # replicate 1 (TimerReset (fingerprintPeriod pluginTwoEntries))"
    by blast
  then have 3: "filter isTimerEvent (fst (snd (doFingerprint rev (replicate 1 TickerC) pluginTwoEntries)))
       = [TimerNew 0, TimerReset 30]"
    by simp
  from run_one_tick 2 3 show ?thesis by blast
qed

end
